theory Spec2Isabelle
  imports Main
begin

section \<open>Errors and outcomes\<close>

text \<open>
  The five error values of \<^verbatim>\<open>deps.go\<close>, the aggregate \<^verbatim>\<open>multiError\<close>, and the errors a
  user callback may return. A Go \<^verbatim>\<open>error\<close> result is an \<open>error option\<close> (\<open>None\<close> is
  \<^verbatim>\<open>nil\<close>). A run-time panic (a failed type assertion, a call of a nil func, a reflect
  misuse) is not an error value: it is the outcome \<open>Panic\<close>, with the state at the point of
  the panic.
\<close>

datatype error =
    ErrMissingCreate
  | ErrNoProvider
  | ErrNotPointer
  | ErrNotFunc
  | ErrInvalidValue
  | MultiError "error list"
  | UserError string

datatype 'a outcome = Ret 'a | Panic string

section \<open>Types and values as reflection sees them\<close>

text \<open>
  \<^verbatim>\<open>reflect.Type\<close> is the key of both maps of a scope. A type is a named basic type with
  its kind, or one of the composite kinds \<^verbatim>\<open>hydrateValue\<close> switches on. A struct type is
  a defined type with a name; it lists, per field, the field's type and what reflection
  needs to know of its name: the field is exported, or unexported, or unexported and
  embedded (an exported embedded field counts as exported).
\<close>

datatype basic = KBool | KInt | KString

datatype fieldKind = Exported | Unexported | UnexportedEmbedded

datatype ty =
    TBasic string basic
  | TPointer ty
  | TSlice ty
  | TArray nat ty
  | TMap ty ty
  | TStruct string "(fieldKind \<times> ty) list"
  | TFunc "ty list"
  | TChan ty
  | TInterface string

datatype lit = LBool bool | LInt int | LStr string

text \<open>
  A value carries what is needed to read its type back. A pointer is an address into the
  memory of the heap, or nil; a slice, map, func, chan or interface may be nil. A func
  value names its code.
\<close>

datatype gval =
    VBasic string lit
  | VPointer ty "nat option"
  | VSlice ty "gval list option"
  | VArray ty "gval list"
  | VMap ty ty "(lit \<times> gval) list option"
  | VStruct string "(fieldKind \<times> gval) list"
  | VFunc "ty list" "nat option"
  | VChan ty bool
  | VInterface string "gval option"

fun kindOf :: "lit \<Rightarrow> basic" where
  "kindOf (LBool b) = KBool"
| "kindOf (LInt i) = KInt"
| "kindOf (LStr s) = KString"

fun typeOf :: "gval \<Rightarrow> ty"
  and typeOfFields :: "(fieldKind \<times> gval) list \<Rightarrow> (fieldKind \<times> ty) list" where
  "typeOf (VBasic n l) = TBasic n (kindOf l)"
| "typeOf (VPointer t a) = TPointer t"
| "typeOf (VSlice t xs) = TSlice t"
| "typeOf (VArray t xs) = TArray (length xs) t"
| "typeOf (VMap kt vt es) = TMap kt vt"
| "typeOf (VStruct n fs) = TStruct n (typeOfFields fs)"
| "typeOf (VFunc ps c) = TFunc ps"
| "typeOf (VChan t isnil) = TChan t"
| "typeOf (VInterface n v) = TInterface n"
| "typeOfFields [] = []"
| "typeOfFields (f # fs) = (fst f, typeOf (snd f)) # typeOfFields fs"

text \<open>The zero value of a type: what \<^verbatim>\<open>reflect.New(t).Elem()\<close> holds.\<close>

fun zeroLit :: "basic \<Rightarrow> lit" where
  "zeroLit KBool = LBool False"
| "zeroLit KInt = LInt 0"
| "zeroLit KString = LStr []"

fun zero :: "ty \<Rightarrow> gval"
  and zeroFields :: "(fieldKind \<times> ty) list \<Rightarrow> (fieldKind \<times> gval) list" where
  "zero (TBasic n b) = VBasic n (zeroLit b)"
| "zero (TPointer t) = VPointer t None"
| "zero (TSlice t) = VSlice t None"
| "zero (TArray n t) = VArray t (replicate n (zero t))"
| "zero (TMap kt vt) = VMap kt vt None"
| "zero (TStruct n fs) = VStruct n (zeroFields fs)"
| "zero (TFunc ps) = VFunc ps None"
| "zero (TChan t) = VChan t True"
| "zero (TInterface n) = VInterface n None"
| "zeroFields [] = []"
| "zeroFields (f # fs) = (fst f, zero (snd f)) # zeroFields fs"

section \<open>Scopes, providers and the heap\<close>

datatype Lifetime = LifetimeForever | LifetimeScope | LifetimeOnce

text \<open>
  \<^verbatim>\<open>Provider[V]\<close>. The three funcs are closures of the application; a provider holds
  their code pointers (\<open>None\<close> is a nil func), and the environment below says what each
  one does.
\<close>

record Provider =
  Lifetime :: Lifetime
  Create :: "nat option"
  AfterPointerUse :: "nat option"
  Free :: "nat option"

record providerLink =
  provider :: Provider
  key :: ty

text \<open>
  A \<^verbatim>\<open>*Scope\<close>. The field \<^verbatim>\<open>parent\<close> is assigned only by \<^verbatim>\<open>new\<close> and never changes, so
  a scope reference carries it: a root (\<^verbatim>\<open>new(nil)\<close>, the global scope) or a child of
  another scope, each with the serial number of its allocation. The mutable fields of
  the scope are in the heap, under the reference.
\<close>

datatype sref = Root nat | Child nat sref

fun parent :: "sref \<Rightarrow> sref option" where
  "parent (Root n) = None"
| "parent (Child n p) = Some p"

record Scope =
  Dynamic :: "nat option"
  providers :: "ty \<rightharpoonup> providerLink"
  instances :: "ty \<rightharpoonup> gval"

record heap =
  scopes :: "sref \<Rightarrow> Scope"
  mem :: "gval list"

text \<open>
  The calls the engine makes to code of the application, in order. This is a ghost
  field: no code reads it. Application code works on the heap and cannot touch it.
\<close>

datatype call =
    CallCreate nat sref
  | CallAfterPointerUse nat sref "nat option"
  | CallFree nat sref "nat option"
  | CallProvideDynamic ty nat sref
  | CallDynamic nat ty sref
  | CallFunc nat "gval list"

record world =
  hp :: heap
  calls :: "call list"

text \<open>
  What the application's code does: each func takes the heap and returns the heap it
  leaves. \<open>provide_dynamic t\<close> is the method \<^verbatim>\<open>ProvideDynamic\<close> of \<^verbatim>\<open>*t\<close> (its receiver is
  the address of the instance), or \<open>None\<close> when \<^verbatim>\<open>*t\<close> does not implement \<^verbatim>\<open>Dynamic\<close>;
  \<open>implements t n\<close> says whether \<open>t\<close> implements the interface \<open>n\<close>.
\<close>

record env =
  create_fn :: "nat \<Rightarrow> sref \<Rightarrow> heap \<Rightarrow> (nat option \<times> error option) \<times> heap"
  after_fn :: "nat \<Rightarrow> sref \<Rightarrow> nat option \<Rightarrow> heap \<Rightarrow> error option \<times> heap"
  free_fn :: "nat \<Rightarrow> sref \<Rightarrow> nat option \<Rightarrow> heap \<Rightarrow> error option \<times> heap"
  dynamic_fn :: "nat \<Rightarrow> ty \<Rightarrow> sref \<Rightarrow> heap \<Rightarrow> (gval option \<times> error option) \<times> heap"
  provide_dynamic :: "ty \<Rightarrow> (nat \<Rightarrow> sref \<Rightarrow> heap \<Rightarrow> error option \<times> heap) option"
  implements :: "ty \<Rightarrow> string \<Rightarrow> bool"
  func_body :: "nat \<Rightarrow> gval list \<Rightarrow> heap \<Rightarrow> gval list \<times> heap"

definition log :: "call \<Rightarrow> world \<Rightarrow> world" where
  "log c w = w\<lparr>calls := calls w @ [c]\<rparr>"

definition scope_at :: "world \<Rightarrow> sref \<Rightarrow> Scope" where
  "scope_at w s = scopes (hp w) s"

definition put_instance :: "sref \<Rightarrow> ty \<Rightarrow> gval \<Rightarrow> heap \<Rightarrow> heap" where
  "put_instance s k v h =
     h\<lparr>scopes := (scopes h)(s := (scopes h s)\<lparr>instances := (instances (scopes h s))(k \<mapsto> v)\<rparr>)\<rparr>"

definition del_instance :: "sref \<Rightarrow> ty \<Rightarrow> heap \<Rightarrow> heap" where
  "del_instance s k h =
     h\<lparr>scopes := (scopes h)(s := (scopes h s)\<lparr>instances := (instances (scopes h s))(k := None)\<rparr>)\<rparr>"

definition on_heap :: "(heap \<Rightarrow> heap) \<Rightarrow> world \<Rightarrow> world" where
  "on_heap f w = w\<lparr>hp := f (hp w)\<rparr>"

text \<open>\<^verbatim>\<open>reflect.New\<close> and \<^verbatim>\<open>&val\<close>: a fresh cell at the end of the memory.\<close>

definition alloc :: "gval \<Rightarrow> world \<Rightarrow> nat \<times> world" where
  "alloc v w = (length (mem (hp w)), on_heap (\<lambda>h. h\<lparr>mem := mem h @ [v]\<rparr>) w)"

definition empty_scope :: Scope where
  "empty_scope = \<lparr>Dynamic = None, providers = Map.empty, instances = Map.empty\<rparr>"

definition ProvideScoped :: "sref \<Rightarrow> ty \<Rightarrow> Provider \<Rightarrow> heap \<Rightarrow> heap" where
  "ProvideScoped s k p h =
     h\<lparr>scopes := (scopes h)(s := (scopes h s)\<lparr>providers :=
          (providers (scopes h s))(k \<mapsto> \<lparr>provider = p, key = k\<rparr>)\<rparr>)\<rparr>"

definition SetScoped :: "sref \<Rightarrow> ty \<Rightarrow> nat option \<Rightarrow> world \<Rightarrow> world" where
  "SetScoped s k a w = on_heap (put_instance s k (VPointer k a)) w"


section \<open>Resolution\<close>

fun getLink :: "heap \<Rightarrow> sref \<Rightarrow> ty \<Rightarrow> providerLink option" where
  "getLink h (Root n) k = providers (scopes h (Root n)) k"
| "getLink h (Child n p) k =
     (case providers (scopes h (Child n p)) k of
        Some l \<Rightarrow> Some l
      | None \<Rightarrow> getLink h p k)"

text \<open>The type assertion \<^verbatim>\<open>value.(*V)\<close> where \<open>V\<close> is the type \<open>k\<close>.\<close>

definition assertPtr :: "ty \<Rightarrow> gval \<Rightarrow> nat option option" where
  "assertPtr k v = (case v of VPointer t a \<Rightarrow> if t = k then Some a else None | _ \<Rightarrow> None)"

text \<open>
  \<^verbatim>\<open>providerLink.get\<close>. The result of \<^verbatim>\<open>Create\<close> has the static type \<^verbatim>\<open>*V\<close>, so the final
  assertion can fail only for a value read from the map.
\<close>

definition providerLink_get ::
  "env \<Rightarrow> providerLink \<Rightarrow> sref \<Rightarrow> world \<Rightarrow> (gval option \<times> error option) outcome \<times> world" where
  "providerLink_get E link s w =
     (case instances (scopes (hp w) s) (key link) of
        None \<Rightarrow>
          (case Create (provider link) of
             None \<Rightarrow> (Ret (None, Some ErrMissingCreate), w)
           | Some c \<Rightarrow>
               (let w1 = log (CallCreate c s) w;
                    ((created, err), h2) = create_fn E c s (hp w1);
                    w2 = w1\<lparr>hp := h2\<rparr>
                in if err \<noteq> None then (Ret (Some (VPointer (key link) created), err), w2)
                   else (Ret (Some (VPointer (key link) created), None),
                         on_heap (put_instance s (key link) (VPointer (key link) created)) w2)))
      | Some v \<Rightarrow>
          (case assertPtr (key link) v of
             None \<Rightarrow> (Panic ''interface conversion'', w)
           | Some a \<Rightarrow> (Ret (Some (VPointer (key link) a), None), w)))"

text \<open>
  \<^verbatim>\<open>GetDynamic\<close>: strip the pointers of the type; if the pointer to what is left
  implements \<^verbatim>\<open>Dynamic\<close>, allocate an instance and return its address with the method.
\<close>

fun stripPointers :: "ty \<Rightarrow> ty" where
  "stripPointers (TPointer t) = stripPointers t"
| "stripPointers t = t"

definition GetDynamic ::
  "env \<Rightarrow> ty \<Rightarrow> world \<Rightarrow> (ty \<times> nat \<times> (nat \<Rightarrow> sref \<Rightarrow> heap \<Rightarrow> error option \<times> heap)) option \<times> world" where
  "GetDynamic E k w =
     (let t = stripPointers k
      in case provide_dynamic E t of
           None \<Rightarrow> (None, w)
         | Some m \<Rightarrow> (let (a, w1) = alloc (zero t) w in (Some (t, a, m), w1)))"

text \<open>
  Lines 300 to 317 of \<^verbatim>\<open>Scope.Get\<close>: the type's own \<^verbatim>\<open>ProvideDynamic\<close>, then the scope's
  \<^verbatim>\<open>Dynamic\<close> func, then \<^verbatim>\<open>ErrNoProvider\<close>.
\<close>

definition Get_dynamic ::
  "env \<Rightarrow> sref \<Rightarrow> ty \<Rightarrow> world \<Rightarrow> (gval option \<times> error option) outcome \<times> world" where
  "Get_dynamic E s k w =
     (case GetDynamic E k w of
        (Some (t, a, m), w1) \<Rightarrow>
          (let w2 = log (CallProvideDynamic t a s) w1;
               (err, h3) = m a s (hp w2);
               w3 = w2\<lparr>hp := h3\<rparr>
           in if err \<noteq> None then (Ret (None, err), w3)
              else (Ret (Some (VPointer t (Some a)), None), w3))
      | (None, w1) \<Rightarrow>
          (case Dynamic (scopes (hp w1) s) of
             Some d \<Rightarrow>
               (let w2 = log (CallDynamic d k s) w1;
                    ((dyn, err), h3) = dynamic_fn E d k s (hp w2);
                    w3 = w2\<lparr>hp := h3\<rparr>
                in if err \<noteq> None then (Ret (None, err), w3)
                   else if dyn \<noteq> None then (Ret (dyn, None), w3)
                   else (Ret (None, Some ErrNoProvider), w3))
           | None \<Rightarrow> (Ret (None, Some ErrNoProvider), w1)))"

text \<open>
  The block \<^verbatim>\<open>if link == nil\<close> of \<^verbatim>\<open>Scope.Get\<close> (lines 293 to 318); \<open>par\<close> is
  \<^verbatim>\<open>scope.parent.Get\<close>, or \<open>None\<close> when \<^verbatim>\<open>scope.parent\<close> is nil.
\<close>

definition Get_unprovided ::
  "env \<Rightarrow> (world \<Rightarrow> (gval option \<times> error option) outcome \<times> world) option \<Rightarrow> sref \<Rightarrow> ty \<Rightarrow> world
     \<Rightarrow> (gval option \<times> error option) outcome \<times> world" where
  "Get_unprovided E par s k w =
     (case par of
        None \<Rightarrow> Get_dynamic E s k w
      | Some parentGet \<Rightarrow>
          (case parentGet w of
             (Panic msg, w1) \<Rightarrow> (Panic msg, w1)
           | (Ret (pv, err), w1) \<Rightarrow>
               if err = None \<or> err \<noteq> Some ErrNoProvider
               then (Ret (pv, err), w1)
               else Get_dynamic E s k w1))"

text \<open>The body of \<^verbatim>\<open>Scope.Get\<close> for the scope \<open>s\<close>.\<close>

definition Get_body ::
  "env \<Rightarrow> (world \<Rightarrow> (gval option \<times> error option) outcome \<times> world) option \<Rightarrow> sref \<Rightarrow> ty \<Rightarrow> world
     \<Rightarrow> (gval option \<times> error option) outcome \<times> world" where
  "Get_body E par s k w =
     (case instances (scopes (hp w) s) k of
        Some instance \<Rightarrow> (Ret (Some instance, None), w)
      | None \<Rightarrow>
          (let deepLink = getLink (hp w) s k
           in if deepLink \<noteq> None \<and> Lifetime (provider (the deepLink)) = LifetimeScope
              then providerLink_get E (the deepLink) s w
              else (case providers (scopes (hp w) s) k of
                      Some link \<Rightarrow> providerLink_get E link s w
                    | None \<Rightarrow> Get_unprovided E par s k w)))"

fun Scope_Get ::
  "env \<Rightarrow> sref \<Rightarrow> ty \<Rightarrow> world \<Rightarrow> (gval option \<times> error option) outcome \<times> world" where
  "Scope_Get E (Root n) k = Get_body E None (Root n) k"
| "Scope_Get E (Child n p) k = Get_body E (Some (Scope_Get E p k)) (Child n p) k"


text \<open>
  \<^verbatim>\<open>GetScoped[V]\<close>, where \<open>V\<close> is the type \<open>k\<close>; it returns a \<^verbatim>\<open>*V\<close>, an address or nil. The
  assertion \<^verbatim>\<open>dyn.(V)\<close> succeeds when \<open>dyn\<close> has the type \<open>V\<close> or, for an interface \<open>V\<close>,
  implements it; \<^verbatim>\<open>&val\<close> is then a fresh cell.
\<close>

definition assertV :: "env \<Rightarrow> ty \<Rightarrow> gval \<Rightarrow> gval option" where
  "assertV E k dyn =
     (case k of
        TInterface n \<Rightarrow> if implements E (typeOf dyn) n then Some (VInterface n (Some dyn)) else None
      | _ \<Rightarrow> if typeOf dyn = k then Some dyn else None)"

text \<open>Lines 105 to 117 of \<^verbatim>\<open>GetScoped\<close>: the scope's \<^verbatim>\<open>Dynamic\<close> func.\<close>

definition GetScoped_callback ::
  "env \<Rightarrow> sref \<Rightarrow> ty \<Rightarrow> world \<Rightarrow> (nat option \<times> error option) outcome \<times> world" where
  "GetScoped_callback E s k w =
     (case Dynamic (scopes (hp w) s) of
        Some d \<Rightarrow>
          (let w2 = log (CallDynamic d k s) w;
               ((dyn, err), h3) = dynamic_fn E d k s (hp w2);
               w3 = w2\<lparr>hp := h3\<rparr>
           in if err \<noteq> None then (Ret (None, err), w3)
              else (case dyn of
                      None \<Rightarrow> (Ret (None, Some ErrNoProvider), w3)
                    | Some x \<Rightarrow>
                        (case assertPtr k x of
                           Some a \<Rightarrow> (Ret (a, None), w3)
                         | None \<Rightarrow>
                             (case assertV E k x of
                                Some val \<Rightarrow> (let (b, w4) = alloc val w3 in (Ret (Some b, None), w4))
                              | None \<Rightarrow> (Ret (None, Some ErrNoProvider), w3)))))
      | None \<Rightarrow> (Ret (None, Some ErrNoProvider), w))"

text \<open>Lines 91 to 117 of \<^verbatim>\<open>GetScoped\<close>.\<close>

definition GetScoped_dynamic ::
  "env \<Rightarrow> sref \<Rightarrow> ty \<Rightarrow> world \<Rightarrow> (nat option \<times> error option) outcome \<times> world" where
  "GetScoped_dynamic E s k w =
     (case GetDynamic E k w of
        (Some (t, a, m), w1) \<Rightarrow>
          (let w2 = log (CallProvideDynamic t a s) w1;
               (err, h3) = m a s (hp w2);
               w3 = w2\<lparr>hp := h3\<rparr>
           in if err \<noteq> None then (Ret (None, err), w3)
              else (case assertPtr k (VPointer t (Some a)) of
                      Some p \<Rightarrow> (Ret (p, None), w3)
                    | None \<Rightarrow>
                        (case assertV E k (VPointer t (Some a)) of
                           Some val \<Rightarrow> (let (b, w4) = alloc val w3 in (Ret (Some b, None), w4))
                         | None \<Rightarrow> GetScoped_callback E s k w3)))
      | (None, w1) \<Rightarrow> GetScoped_callback E s k w1)"

text \<open>
  The block \<^verbatim>\<open>if provider == nil\<close> of \<^verbatim>\<open>GetScoped\<close> (lines 84 to 118); \<open>par\<close> is
  \<^verbatim>\<open>GetScoped[V](scope.parent)\<close>, or \<open>None\<close> when \<^verbatim>\<open>scope.parent\<close> is nil.
\<close>

definition GetScoped_unprovided ::
  "env \<Rightarrow> (world \<Rightarrow> (nat option \<times> error option) outcome \<times> world) option \<Rightarrow> sref \<Rightarrow> ty \<Rightarrow> world
     \<Rightarrow> (nat option \<times> error option) outcome \<times> world" where
  "GetScoped_unprovided E par s k w =
     (case par of
        None \<Rightarrow> GetScoped_dynamic E s k w
      | Some parentGet \<Rightarrow>
          (case parentGet w of
             (Panic msg, w1) \<Rightarrow> (Panic msg, w1)
           | (Ret (pv, err), w1) \<Rightarrow>
               if err = None \<or> err \<noteq> Some ErrNoProvider
               then (Ret (pv, err), w1)
               else GetScoped_dynamic E s k w1))"

text \<open>
  The body of \<^verbatim>\<open>GetScoped\<close>. Line 119 calls \<^verbatim>\<open>Create\<close> without testing it for nil.
\<close>

definition GetScoped_body ::
  "env \<Rightarrow> (world \<Rightarrow> (nat option \<times> error option) outcome \<times> world) option \<Rightarrow> sref \<Rightarrow> ty \<Rightarrow> world
     \<Rightarrow> (nat option \<times> error option) outcome \<times> world" where
  "GetScoped_body E par s k w =
     (case instances (scopes (hp w) s) k of
        Some instance \<Rightarrow>
          (case assertPtr k instance of
             None \<Rightarrow> (Panic ''interface conversion'', w)
           | Some a \<Rightarrow> (Ret (a, None), w))
      | None \<Rightarrow>
          (case providers (scopes (hp w) s) k of
             None \<Rightarrow> GetScoped_unprovided E par s k w
           | Some link \<Rightarrow>
               (case Create (provider link) of
                  None \<Rightarrow> (Panic ''nil pointer dereference'', w)
                | Some c \<Rightarrow>
                    (let w1 = log (CallCreate c s) w;
                         ((instance, err), h2) = create_fn E c s (hp w1);
                         w2 = w1\<lparr>hp := h2\<rparr>
                     in if err \<noteq> None then (Ret (None, err), w2)
                        else (Ret (instance, None),
                              on_heap (put_instance s k (VPointer k instance)) w2)))))"

fun GetScoped ::
  "env \<Rightarrow> sref \<Rightarrow> ty \<Rightarrow> world \<Rightarrow> (nat option \<times> error option) outcome \<times> world" where
  "GetScoped E (Root n) k = GetScoped_body E None (Root n) k"
| "GetScoped E (Child n p) k = GetScoped_body E (Some (GetScoped E p k)) (Child n p) k"

section \<open>Teardown\<close>

text \<open>
  \<^verbatim>\<open>providerLink.free\<close> and \<^verbatim>\<open>providerLink.afterPointerUse\<close>. Both read
  \<^verbatim>\<open>scope.instances[link.key].(*V)\<close>, which panics when the entry is missing or is not a
  \<^verbatim>\<open>*V\<close>.
\<close>

definition providerLink_free ::
  "env \<Rightarrow> providerLink \<Rightarrow> sref \<Rightarrow> world \<Rightarrow> error option outcome \<times> world" where
  "providerLink_free E link s w =
     (case Free (provider link) of
        Some f \<Rightarrow>
          (case instances (scopes (hp w) s) (key link) of
             None \<Rightarrow> (Panic ''interface conversion'', w)
           | Some v \<Rightarrow>
               (case assertPtr (key link) v of
                  None \<Rightarrow> (Panic ''interface conversion'', w)
                | Some a \<Rightarrow>
                    (let w1 = log (CallFree f s a) w;
                         (err, h2) = free_fn E f s a (hp w1);
                         w2 = w1\<lparr>hp := h2\<rparr>
                     in (Ret err, on_heap (del_instance s (key link)) w2))))
      | None \<Rightarrow> (Ret None, on_heap (del_instance s (key link)) w))"

definition providerLink_afterPointerUse ::
  "env \<Rightarrow> providerLink \<Rightarrow> sref \<Rightarrow> world \<Rightarrow> error option outcome \<times> world" where
  "providerLink_afterPointerUse E link s w =
     (case AfterPointerUse (provider link) of
        Some f \<Rightarrow>
          (case instances (scopes (hp w) s) (key link) of
             None \<Rightarrow> (Panic ''interface conversion'', w)
           | Some v \<Rightarrow>
               (case assertPtr (key link) v of
                  None \<Rightarrow> (Panic ''interface conversion'', w)
                | Some a \<Rightarrow>
                    (let w1 = log (CallAfterPointerUse f s a) w;
                         (err, h2) = after_fn E f s a (hp w1)
                     in (Ret err, w1\<lparr>hp := h2\<rparr>))))
      | None \<Rightarrow> (Ret None, w))"

text \<open>
  The loop \<^verbatim>\<open>for key := range scope.instances\<close> of \<^verbatim>\<open>FreeOnce\<close> and of \<^verbatim>\<open>Free\<close>. Go leaves
  the order of a range over a map open, so the order is an argument: \<open>ks\<close> lists the keys
  as the range produces them. An entry removed before the range reaches it is not
  produced; \<open>errs\<close> is \<^verbatim>\<open>multi.errors\<close>.
\<close>

fun FreeOnce_range ::
  "env \<Rightarrow> sref \<Rightarrow> ty list \<Rightarrow> error list \<Rightarrow> world \<Rightarrow> error list outcome \<times> world" where
  "FreeOnce_range E s [] errs = (\<lambda>w. (Ret errs, w))"
| "FreeOnce_range E s (k # ks) errs = (\<lambda>w.
     if instances (scopes (hp w) s) k = None then FreeOnce_range E s ks errs w
     else (case getLink (hp w) s k of
             Some link \<Rightarrow>
               if Lifetime (provider link) = LifetimeOnce
               then (case providerLink_free E link s w of
                       (Panic msg, w1) \<Rightarrow> (Panic msg, w1)
                     | (Ret err, w1) \<Rightarrow>
                         FreeOnce_range E s ks (case err of None \<Rightarrow> errs | Some e \<Rightarrow> errs @ [e]) w1)
               else FreeOnce_range E s ks errs w
           | None \<Rightarrow> FreeOnce_range E s ks errs (on_heap (del_instance s k) w)))"

definition Scope_FreeOnce :: "env \<Rightarrow> sref \<Rightarrow> ty list \<Rightarrow> world \<Rightarrow> error option outcome \<times> world" where
  "Scope_FreeOnce E s ks w =
     (case FreeOnce_range E s ks [] w of
        (Panic msg, w1) \<Rightarrow> (Panic msg, w1)
      | (Ret errs, w1) \<Rightarrow> (Ret (if length errs > 0 then Some (MultiError errs) else None), w1))"

fun Free_range ::
  "env \<Rightarrow> sref \<Rightarrow> ty list \<Rightarrow> error list \<Rightarrow> world \<Rightarrow> error list outcome \<times> world" where
  "Free_range E s [] errs = (\<lambda>w. (Ret errs, w))"
| "Free_range E s (k # ks) errs = (\<lambda>w.
     if instances (scopes (hp w) s) k = None then Free_range E s ks errs w
     else (case getLink (hp w) s k of
             Some link \<Rightarrow>
               (case providerLink_free E link s w of
                  (Panic msg, w1) \<Rightarrow> (Panic msg, w1)
                | (Ret err, w1) \<Rightarrow>
                    Free_range E s ks (case err of None \<Rightarrow> errs | Some e \<Rightarrow> errs @ [e]) w1)
           | None \<Rightarrow> Free_range E s ks errs (on_heap (del_instance s k) w)))"

definition Scope_Free :: "env \<Rightarrow> sref \<Rightarrow> ty list \<Rightarrow> world \<Rightarrow> error option outcome \<times> world" where
  "Scope_Free E s ks w =
     (case Free_range E s ks [] w of
        (Panic msg, w1) \<Rightarrow> (Panic msg, w1)
      | (Ret errs, w1) \<Rightarrow> (Ret (if length errs > 0 then Some (MultiError errs) else None), w1))"


section \<open>Hydration\<close>

text \<open>
  \<^verbatim>\<open>reflect.ValueOf(val).Elem()\<close> for the \<^verbatim>\<open>val\<close> that \<^verbatim>\<open>Get\<close> returned: the cell a non-nil
  pointer points to. It panics for nil and for a value that is no pointer; for a nil
  pointer it is the zero \<^verbatim>\<open>Value\<close>, on which the following \<^verbatim>\<open>Set\<close> panics.
\<close>

definition elemOf :: "gval option \<Rightarrow> heap \<Rightarrow> gval option" where
  "elemOf val h =
     (case val of
        Some (VPointer t (Some a)) \<Rightarrow> if a < length (mem h) then Some (mem h ! a) else None
      | _ \<Rightarrow> None)"

text \<open>
  The two read-only bits of a \<^verbatim>\<open>reflect.Value\<close>, \<^verbatim>\<open>flagStickyRO\<close> and \<^verbatim>\<open>flagEmbedRO\<close>, in
  this order. \<^verbatim>\<open>Addr\<close> and \<^verbatim>\<open>Elem\<close> keep both. \<^verbatim>\<open>Field\<close> keeps the sticky bit, clears the
  other one, and sets the sticky bit for an unexported field and the other one for an
  unexported embedded field. \<^verbatim>\<open>Index\<close> turns either bit into the sticky one. A value with
  one of the bits cannot be set (\<^verbatim>\<open>CanSet\<close>; every value met here is addressable), and
  \<^verbatim>\<open>SetMapIndex\<close> panics on it.
\<close>

type_synonym flagRO = "bool \<times> bool"

definition isRO :: "flagRO \<Rightarrow> bool" where
  "isRO fl \<longleftrightarrow> fst fl \<or> snd fl"

fun fieldFlag :: "flagRO \<Rightarrow> fieldKind \<Rightarrow> flagRO" where
  "fieldFlag fl Exported = (fst fl, False)"
| "fieldFlag fl Unexported = (True, False)"
| "fieldFlag fl UnexportedEmbedded = (fst fl, True)"

definition indexFlag :: "flagRO \<Rightarrow> flagRO" where
  "indexFlag fl = (isRO fl, False)"

text \<open>
  What \<^verbatim>\<open>Set\<close> stores into a cell of the type \<open>dst\<close> when given \<open>x\<close> (\<^verbatim>\<open>Value.assignTo\<close>), or
  \<open>None\<close> when \<open>x\<close> is not assignable and \<^verbatim>\<open>Set\<close> panics. A value of the cell's own type is
  stored as it is. A cell of an interface type takes a value whose type implements the
  interface: it then holds the value, or what the value holds when it is an interface
  value itself. Two different types of this model are assignable in no other way: each
  type with a name is a defined type, and channels have no direction here.
\<close>

definition assignTo :: "env \<Rightarrow> ty \<Rightarrow> gval \<Rightarrow> gval option" where
  "assignTo E dst x =
     (if typeOf x = dst then Some x
      else (case dst of
              TInterface n \<Rightarrow>
                if implements E (typeOf x) n
                then Some (case x of VInterface m y \<Rightarrow> VInterface n y | _ \<Rightarrow> VInterface n (Some x))
                else None
            | _ \<Rightarrow> None))"

text \<open>
  A measure for the recursion of \<^verbatim>\<open>hydrateValue\<close>: it descends into the items of an array
  or slice and the fields of a struct, and, for a map, into a new zero value of the
  map's value type.
\<close>

fun tweight :: "ty \<Rightarrow> nat"
  and tweightFields :: "(fieldKind \<times> ty) list \<Rightarrow> nat" where
  "tweight (TBasic n b) = 1"
| "tweight (TPointer t) = 1"
| "tweight (TSlice t) = 1"
| "tweight (TArray n t) = Suc (n * tweight t)"
| "tweight (TMap kt vt) = Suc (tweight vt)"
| "tweight (TStruct n fs) = Suc (tweightFields fs)"
| "tweight (TFunc ps) = 1"
| "tweight (TChan t) = 1"
| "tweight (TInterface n) = 1"
| "tweightFields [] = 0"
| "tweightFields (f # fs) = tweight (snd f) + tweightFields fs"

fun weight :: "gval \<Rightarrow> nat"
  and weightList :: "gval list \<Rightarrow> nat"
  and weightFields :: "(fieldKind \<times> gval) list \<Rightarrow> nat" where
  "weight (VBasic n l) = 1"
| "weight (VPointer t a) = 1"
| "weight (VSlice t None) = 1"
| "weight (VSlice t (Some xs)) = Suc (weightList xs)"
| "weight (VArray t xs) = Suc (weightList xs)"
| "weight (VMap kt vt es) = Suc (tweight vt)"
| "weight (VStruct n fs) = Suc (weightFields fs)"
| "weight (VFunc ps c) = 1"
| "weight (VChan t isnil) = 1"
| "weight (VInterface n v) = 1"
| "weightList [] = 0"
| "weightList (x # xs) = weight x + weightList xs"
| "weightFields [] = 0"
| "weightFields (f # fs) = weight (snd f) + weightFields fs"

lemma weightList_replicate: "weightList (replicate n v) = n * weight v"
  by (induction n) simp_all

lemma weight_zero:
  "weight (zero t) = tweight t"
  "weightFields (zeroFields fs) = tweightFields fs"
  by (induction t and fs rule: zero_zeroFields.induct) (simp_all add: weightList_replicate)

lemma weight_pos: "0 < weight v"
  by (cases v rule: weight.cases) simp_all

text \<open>
  \<^verbatim>\<open>hydrateValue(ptr)\<close>. The argument \<open>v\<close> is the value of the cell \<open>ptr\<close> points to, and the
  result is the value the cell holds afterwards together with the returned error; the
  caller stores it back. \<open>ro\<close> holds the read-only bits of \<^verbatim>\<open>ptr\<close>, which are those of
  \<^verbatim>\<open>ptr.Elem()\<close>. \<open>hydrateInner\<close> is the rest of the function after
  \<^verbatim>\<open>inner := ptr.Elem()\<close> (lines 395 to 439), with its two switches on the kind. Every item
  and field met here belongs to a dereferenced pointer, so \<^verbatim>\<open>CanAddr\<close> holds at both
  tests. The keys of a map are taken in the order of the list.
\<close>

function hydrateValue ::
    "env \<Rightarrow> sref \<Rightarrow> flagRO \<Rightarrow> gval \<Rightarrow> world \<Rightarrow> (gval \<times> error option) outcome \<times> world"
  and hydrateInner ::
    "env \<Rightarrow> sref \<Rightarrow> flagRO \<Rightarrow> gval \<Rightarrow> world \<Rightarrow> (gval \<times> error option) outcome \<times> world"
  and hydrateItems ::
    "env \<Rightarrow> sref \<Rightarrow> flagRO \<Rightarrow> gval list \<Rightarrow> world \<Rightarrow> (gval list \<times> error option) outcome \<times> world"
  and hydrateFields ::
    "env \<Rightarrow> sref \<Rightarrow> flagRO \<Rightarrow> (fieldKind \<times> gval) list \<Rightarrow> world
       \<Rightarrow> ((fieldKind \<times> gval) list \<times> error option) outcome \<times> world"
  and hydrateEntries ::
    "env \<Rightarrow> sref \<Rightarrow> flagRO \<Rightarrow> ty \<Rightarrow> (lit \<times> gval) list \<Rightarrow> world
       \<Rightarrow> ((lit \<times> gval) list \<times> error option) outcome \<times> world" where
  "hydrateValue E s ro v = (\<lambda>w.
     case Scope_Get E s (typeOf v) w of
       (Panic msg, w1) \<Rightarrow> (Panic msg, w1)
     | (Ret (val, err), w1) \<Rightarrow>
         if err \<noteq> Some ErrNoProvider then
           (if err = None \<and> \<not> isRO ro then
              (case elemOf val (hp w1) of
                 None \<Rightarrow> (Panic ''reflect: Elem or Set of an invalid value'', w1)
               | Some x \<Rightarrow>
                   (case assignTo E (typeOf v) x of
                      Some y \<Rightarrow> (Ret (y, None), w1)
                    | None \<Rightarrow> (Panic ''reflect.Set: value is not assignable'', w1)))
            else (Ret (v, err), w1))
         else hydrateInner E s ro v w1)"
| "hydrateInner E s ro (VSlice t None) = (\<lambda>w. (Ret (VSlice t None, None), w))"
| "hydrateInner E s ro (VSlice t (Some xs)) = (\<lambda>w.
     case hydrateItems E s ro xs w of
       (Panic msg, w2) \<Rightarrow> (Panic msg, w2)
     | (Ret (xs', e), w2) \<Rightarrow> (Ret (VSlice t (Some xs'), e), w2))"
| "hydrateInner E s ro (VArray t xs) = (\<lambda>w.
     case hydrateItems E s ro xs w of
       (Panic msg, w2) \<Rightarrow> (Panic msg, w2)
     | (Ret (xs', e), w2) \<Rightarrow> (Ret (VArray t xs', e), w2))"
| "hydrateInner E s ro (VStruct n fs) = (\<lambda>w.
     case hydrateFields E s ro fs w of
       (Panic msg, w2) \<Rightarrow> (Panic msg, w2)
     | (Ret (fs', e), w2) \<Rightarrow> (Ret (VStruct n fs', e), w2))"
| "hydrateInner E s ro (VMap kt vt None) = (\<lambda>w. (Ret (VMap kt vt None, None), w))"
| "hydrateInner E s ro (VMap kt vt (Some es)) = (\<lambda>w.
     case hydrateEntries E s ro vt es w of
       (Panic msg, w2) \<Rightarrow> (Panic msg, w2)
     | (Ret (es', e), w2) \<Rightarrow> (Ret (VMap kt vt (Some es'), e), w2))"
| "hydrateInner E s ro (VBasic n l) = (\<lambda>w. (Ret (VBasic n l, None), w))"
| "hydrateInner E s ro (VPointer t a) = (\<lambda>w. (Ret (VPointer t a, None), w))"
| "hydrateInner E s ro (VFunc ps c) = (\<lambda>w. (Ret (VFunc ps c, None), w))"
| "hydrateInner E s ro (VChan t isnil) = (\<lambda>w. (Ret (VChan t isnil, None), w))"
| "hydrateInner E s ro (VInterface n x) = (\<lambda>w. (Ret (VInterface n x, None), w))"
| "hydrateItems E s ro [] = (\<lambda>w. (Ret ([], None), w))"
| "hydrateItems E s ro (item # items) = (\<lambda>w.
     case hydrateValue E s (indexFlag ro) item w of
       (Panic msg, w1) \<Rightarrow> (Panic msg, w1)
     | (Ret (item', err), w1) \<Rightarrow>
         if err \<noteq> None then (Ret (item' # items, err), w1)
         else (case hydrateItems E s ro items w1 of
                 (Panic msg, w2) \<Rightarrow> (Panic msg, w2)
               | (Ret (items', e), w2) \<Rightarrow> (Ret (item' # items', e), w2)))"
| "hydrateFields E s ro [] = (\<lambda>w. (Ret ([], None), w))"
| "hydrateFields E s ro (fld # flds) = (\<lambda>w.
     case hydrateValue E s (fieldFlag ro (fst fld)) (snd fld) w of
       (Panic msg, w1) \<Rightarrow> (Panic msg, w1)
     | (Ret (x, err), w1) \<Rightarrow>
         if err \<noteq> None then (Ret ((fst fld, x) # flds, err), w1)
         else (case hydrateFields E s ro flds w1 of
                 (Panic msg, w2) \<Rightarrow> (Panic msg, w2)
               | (Ret (flds', e), w2) \<Rightarrow> (Ret ((fst fld, x) # flds', e), w2)))"
| "hydrateEntries E s ro vt [] = (\<lambda>w. (Ret ([], None), w))"
| "hydrateEntries E s ro vt (entry # entries) = (\<lambda>w.
     case hydrateValue E s (False, False) (zero vt) w of
       (Panic msg, w1) \<Rightarrow> (Panic msg, w1)
     | (Ret (newValue, err), w1) \<Rightarrow>
         if err \<noteq> None then (Ret (entry # entries, err), w1)
         else if isRO ro then (Panic ''reflect.SetMapIndex: unexported field'', w1)
         else (case hydrateEntries E s ro vt entries w1 of
                 (Panic msg, w2) \<Rightarrow> (Panic msg, w2)
               | (Ret (entries', e), w2) \<Rightarrow> (Ret ((fst entry, newValue) # entries', e), w2)))"
  by pat_completeness auto
termination
  by (relation "inv_image (less_than <*lex*> less_than)
        (\<lambda>x. case x of
           Inl (Inl (E, s, ro, v)) \<Rightarrow> (weight v, 1)
         | Inl (Inr (E, s, ro, v)) \<Rightarrow> (weight v, 0)
         | Inr (Inl (E, s, ro, xs)) \<Rightarrow> (weightList xs, Suc (length xs))
         | Inr (Inr (Inl (E, s, ro, fs))) \<Rightarrow> (weightFields fs, Suc (length fs))
         | Inr (Inr (Inr (E, s, ro, vt, es))) \<Rightarrow> (tweight vt, Suc (length es)))")
     (auto simp: weight_zero weight_pos)

declare hydrateValue.simps [simp del]

text \<open>
  \<^verbatim>\<open>Scope.Hydrate\<close>. The cell the argument points to is read, hydrated and stored back.
  For a nil pointer \<^verbatim>\<open>ptr.Elem()\<close> is the zero \<^verbatim>\<open>Value\<close>: it cannot be set and has no kind,
  so only the call of \<^verbatim>\<open>Get\<close> remains.
\<close>

definition Scope_Hydrate ::
  "env \<Rightarrow> sref \<Rightarrow> gval option \<Rightarrow> world \<Rightarrow> error option outcome \<times> world" where
  "Scope_Hydrate E s v w =
     (case v of
        Some (VPointer t None) \<Rightarrow>
          (case Scope_Get E s t w of
             (Panic msg, w1) \<Rightarrow> (Panic msg, w1)
           | (Ret (val, err), w1) \<Rightarrow> (Ret (if err \<noteq> Some ErrNoProvider then err else None), w1))
      | Some (VPointer t (Some a)) \<Rightarrow>
          if a < length (mem (hp w)) then
            (case hydrateValue E s (False, False) (mem (hp w) ! a) w of
               (Panic msg, w1) \<Rightarrow> (Panic msg, w1)
             | (Ret (x, err), w1) \<Rightarrow> (Ret err, on_heap (\<lambda>h. h\<lparr>mem := (mem h)[a := x]\<rparr>) w1))
          else (Panic ''invalid memory address'', w)
      | _ \<Rightarrow> (Ret (Some ErrNotPointer), w))"

text \<open>
  \<^verbatim>\<open>hydrateType\<close>: the \<^verbatim>\<open>reflect.Value\<close> it returns is \<open>None\<close> when it is the zero
  \<^verbatim>\<open>Value\<close> (\<^verbatim>\<open>reflect.ValueOf(nil)\<close>).
\<close>

definition hydrateType ::
  "env \<Rightarrow> sref \<Rightarrow> ty \<Rightarrow> world \<Rightarrow> (gval option \<times> error option) outcome \<times> world" where
  "hydrateType E s k w =
     (let fresh = (\<lambda>w0.
            case hydrateValue E s (False, False) (zero k) w0 of
              (Panic msg, w1) \<Rightarrow> (Panic msg, w1)
            | (Ret (x, err), w1) \<Rightarrow> (Ret (Some x, err), w1))
      in case k of
           TPointer t \<Rightarrow>
             (case Scope_Get E s t w of
                (Panic msg, w1) \<Rightarrow> (Panic msg, w1)
              | (Ret (val, err), w1) \<Rightarrow>
                  if err \<noteq> Some ErrNoProvider then (Ret (val, err), w1) else fresh w1)
         | _ \<Rightarrow> fresh w)"

section \<open>Invocation\<close>

text \<open>The first loop of \<^verbatim>\<open>Scope.Invoke\<close>: one argument per parameter type.\<close>

fun Invoke_args ::
  "env \<Rightarrow> sref \<Rightarrow> ty list \<Rightarrow> world \<Rightarrow> (gval list \<times> error option) outcome \<times> world" where
  "Invoke_args E s [] = (\<lambda>w. (Ret ([], None), w))"
| "Invoke_args E s (t # ts) = (\<lambda>w.
     case hydrateType E s t w of
       (Panic msg, w1) \<Rightarrow> (Panic msg, w1)
     | (Ret (argValue, err), w1) \<Rightarrow>
         if err \<noteq> None then (Ret ([], err), w1)
         else (case argValue of
                 None \<Rightarrow> (Ret ([], Some ErrInvalidValue), w1)
               | Some a \<Rightarrow>
                   (case Invoke_args E s ts w1 of
                      (Panic msg, w2) \<Rightarrow> (Panic msg, w2)
                    | (Ret (args, e), w2) \<Rightarrow> (Ret (a # args, e), w2))))"

text \<open>The second loop: the notifications for the arguments that are pointers.\<close>

fun Invoke_after :: "env \<Rightarrow> sref \<Rightarrow> gval list \<Rightarrow> world \<Rightarrow> error option outcome \<times> world" where
  "Invoke_after E s [] = (\<lambda>w. (Ret None, w))"
| "Invoke_after E s (argValue # args) = (\<lambda>w.
     case argValue of
       VPointer t a \<Rightarrow>
         (case providers (scopes (hp w) s) t of
            Some link \<Rightarrow>
              (case providerLink_afterPointerUse E link s w of
                 (Panic msg, w1) \<Rightarrow> (Panic msg, w1)
               | (Ret err, w1) \<Rightarrow>
                   if err \<noteq> None then (Ret err, w1) else Invoke_after E s args w1)
          | None \<Rightarrow> Invoke_after E s args w)
     | _ \<Rightarrow> Invoke_after E s args w)"

text \<open>
  \<^verbatim>\<open>Scope.Invoke\<close>. \<open>ks\<close> is the order of the range in the final \<^verbatim>\<open>FreeOnce\<close>, whose result
  the source drops. \<^verbatim>\<open>reflect.TypeOf(nil).Kind()\<close> panics, and so does \<^verbatim>\<open>Call\<close> on a nil
  func or with an argument that is not assignable to the parameter's type. An argument
  for a parameter that is no pointer is a new cell of the parameter's type, and to a
  pointer type no other type of this model is assignable, so the test is the equality of
  the types.
\<close>

definition Scope_Invoke ::
  "env \<Rightarrow> sref \<Rightarrow> ty list \<Rightarrow> gval option \<Rightarrow> world
     \<Rightarrow> (gval list option \<times> error option) outcome \<times> world" where
  "Scope_Invoke E s ks fn w =
     (case fn of
        None \<Rightarrow> (Panic ''nil pointer dereference'', w)
      | Some (VFunc ps code) \<Rightarrow>
          (case Invoke_args E s ps w of
             (Panic msg, w1) \<Rightarrow> (Panic msg, w1)
           | (Ret (args, err), w1) \<Rightarrow>
               if err \<noteq> None then (Ret (None, err), w1)
               else (case code of
                       None \<Rightarrow> (Panic ''reflect: call of nil function'', w1)
                     | Some f \<Rightarrow>
                         if map typeOf args \<noteq> ps
                         then (Panic ''reflect: Call using a value of another type'', w1)
                         else
                           (let w2 = log (CallFunc f args) w1;
                                (resultsReflect, h3) = func_body E f args (hp w2);
                                w3 = w2\<lparr>hp := h3\<rparr>
                            in case Invoke_after E s args w3 of
                                 (Panic msg, w4) \<Rightarrow> (Panic msg, w4)
                               | (Ret err2, w4) \<Rightarrow>
                                   if err2 \<noteq> None then (Ret (None, err2), w4)
                                   else (case Scope_FreeOnce E s ks w4 of
                                           (Panic msg, w5) \<Rightarrow> (Panic msg, w5)
                                         | (Ret dropped, w5) \<Rightarrow>
                                             (Ret (Some resultsReflect, None), w5)))))
      | Some other \<Rightarrow> (Ret (None, Some ErrNotFunc), w))"


section \<open>Fixtures and predicates of the statements\<close>

text \<open>The kind test \<^verbatim>\<open>Kind() == reflect.Pointer\<close>.\<close>

fun isPointer :: "gval \<Rightarrow> bool" where
  "isPointer (VPointer t a) = True"
| "isPointer v = False"

text \<open>
  Application code leaves the scopes alone when no func of the environment changes a
  map of a scope; it may still allocate and write memory.
\<close>

definition leaves_scopes_alone :: "env \<Rightarrow> bool" where
  "leaves_scopes_alone E \<longleftrightarrow>
     (\<forall>c s h. scopes (snd (create_fn E c s h)) = scopes h) \<and>
     (\<forall>f s a h. scopes (snd (after_fn E f s a h)) = scopes h) \<and>
     (\<forall>f s a h. scopes (snd (free_fn E f s a h)) = scopes h) \<and>
     (\<forall>d k s h. scopes (snd (dynamic_fn E d k s h)) = scopes h) \<and>
     (\<forall>t m a s h. provide_dynamic E t = Some m \<longrightarrow> scopes (snd (m a s h)) = scopes h) \<and>
     (\<forall>f args h. scopes (snd (func_body E f args h)) = scopes h)"

text \<open>The same of the \<^verbatim>\<open>Free\<close> funcs alone, when they are called with the scope \<open>s\<close>.\<close>

definition free_leaves_scopes :: "env \<Rightarrow> sref \<Rightarrow> bool" where
  "free_leaves_scopes E s \<longleftrightarrow> (\<forall>f a h. scopes (snd (free_fn E f s a h)) = scopes h)"




text \<open>
  A small application: the types \<^verbatim>\<open>Port\<close> (an int) and \<^verbatim>\<open>Gen\<close> (a struct that implements
  \<^verbatim>\<open>Dynamic\<close>, as in the tests), a \<^verbatim>\<open>Create\<close> 0 that allocates the port 8080 and other
  \<^verbatim>\<open>Create\<close> funcs that fail, a \<^verbatim>\<open>Free\<close> 0 that succeeds and other \<^verbatim>\<open>Free\<close> funcs that fail,
  and a \<^verbatim>\<open>Dynamic\<close> func that knows the port 42. None of them touches a scope.
\<close>

definition Port :: ty where
  "Port = TBasic ''Port'' KInt"

definition Gen :: ty where
  "Gen = TStruct ''Gen'' [(Exported, TBasic ''int'' KInt)]"

definition env0 :: env where
  "env0 = \<lparr>
     create_fn = (\<lambda>c s h.
        if c = 0 then ((Some (length (mem h)), None), h\<lparr>mem := mem h @ [VBasic ''Port'' (LInt 8080)]\<rparr>)
        else ((None, Some (UserError ''create failed'')), h)),
     after_fn = (\<lambda>f s a h. (None, h)),
     free_fn = (\<lambda>f s a h. (if f = 0 then None else Some (UserError ''close failed''), h)),
     dynamic_fn = (\<lambda>d k s h. ((if k = Port then Some (VBasic ''Port'' (LInt 42)) else None, None), h)),
     provide_dynamic = (\<lambda>t.
        if t = Gen
        then Some (\<lambda>a s h. (None, h\<lparr>mem := (mem h)[a := VStruct ''Gen'' [(Exported, VBasic ''int'' (LInt 42))]]\<rparr>))
        else None),
     implements = (\<lambda>t n. False),
     func_body = (\<lambda>f args h. ([], h))\<rparr>"

text \<open>A heap in which every scope is new, and a child of the global scope.\<close>

definition world0 :: world where
  "world0 = \<lparr>hp = \<lparr>scopes = (\<lambda>s. empty_scope), mem = []\<rparr>, calls = []\<rparr>"

definition child1 :: sref where
  "child1 = Child 1 (Root 0)"

text \<open>The child has a provider for \<^verbatim>\<open>Port\<close> whose \<^verbatim>\<open>Create\<close> is nil.\<close>

definition world_nil_create :: world where
  "world_nil_create = on_heap (ProvideScoped child1 Port
      \<lparr>Lifetime = LifetimeForever, Create = None, AfterPointerUse = None, Free = None\<rparr>) world0"

text \<open>The child has a \<^verbatim>\<open>Dynamic\<close> func and nothing else, as in the test \<^verbatim>\<open>TestDynamic\<close>.\<close>

definition world_dynamic :: world where
  "world_dynamic =
     on_heap (\<lambda>h. h\<lparr>scopes := (scopes h)(child1 := empty_scope\<lparr>Dynamic := Some 0\<rparr>)\<rparr>) world0"

text \<open>The global scope provides \<^verbatim>\<open>Port\<close> with the lifetime \<^verbatim>\<open>Forever\<close>.\<close>

definition world_forever :: world where
  "world_forever = on_heap (ProvideScoped (Root 0) Port
      \<lparr>Lifetime = LifetimeForever, Create = Some 0, AfterPointerUse = None, Free = Some 0\<rparr>) world0"

text \<open>
  The typing that every entry point of the package keeps: an instance stored under the
  type \<open>k\<close> is a pointer to \<open>k\<close> (\<^verbatim>\<open>SetScoped\<close>, \<^verbatim>\<open>Scope.Set\<close>, \<^verbatim>\<open>providerLink.get\<close> and
  \<^verbatim>\<open>GetScoped\<close> store nothing else), and a link found for the key \<open>k\<close> has \<open>k\<close> as its own key
  (\<^verbatim>\<open>ProvideScoped\<close> stores nothing else).
\<close>

definition typed_instances :: "heap \<Rightarrow> sref \<Rightarrow> bool" where
  "typed_instances h s \<longleftrightarrow> (\<forall>k v. instances (scopes h s) k = Some v \<longrightarrow> (\<exists>a. v = VPointer k a))"

definition keyed_links :: "heap \<Rightarrow> sref \<Rightarrow> bool" where
  "keyed_links h s \<longleftrightarrow> (\<forall>k l. getLink h s k = Some l \<longrightarrow> key l = k)"

text \<open>The global scope provides \<^verbatim>\<open>Port\<close> with the lifetime \<^verbatim>\<open>Scope\<close>.\<close>

definition world_scoped :: world where
  "world_scoped = on_heap (ProvideScoped (Root 0) Port
      \<lparr>Lifetime = LifetimeScope, Create = Some 0, AfterPointerUse = None, Free = Some 0\<rparr>) world0"


definition same_providers :: "world \<Rightarrow> world \<Rightarrow> bool" where
  "same_providers w w' \<longleftrightarrow> (\<forall>a. providers (scopes (hp w') a) = providers (scopes (hp w) a))"

definition shrinks :: "world \<Rightarrow> world \<Rightarrow> bool" where
  "shrinks w w' \<longleftrightarrow> same_providers w w' \<and>
     (\<forall>a k. instances (scopes (hp w') a) k = None \<or>
            instances (scopes (hp w') a) k = instances (scopes (hp w) a) k)"


text \<open>
  \<^verbatim>\<open>port := Port(8080); SetScoped(s, &port)\<close> on the child: a constant without a provider.
  In the second heap the child also provides \<^verbatim>\<open>Conn\<close>, with a \<^verbatim>\<open>Create\<close> that fails.
\<close>

definition Conn :: ty where
  "Conn = TBasic ''Conn'' KString"

definition world_const :: world where
  "world_const =
     SetScoped child1 Port (Some 0)
       (on_heap (\<lambda>h. h\<lparr>mem := [VBasic ''Port'' (LInt 8080)]\<rparr>) world0)"


text \<open>
  The child provides \<^verbatim>\<open>Port\<close> with the lifetime \<^verbatim>\<open>Once\<close> and a \<^verbatim>\<open>Free\<close> that fails, and
  \<^verbatim>\<open>Conn\<close> with a \<^verbatim>\<open>Create\<close> that fails.
\<close>

definition world_once :: world where
  "world_once =
     on_heap (ProvideScoped child1 Conn
        \<lparr>Lifetime = LifetimeForever, Create = Some 1, AfterPointerUse = None, Free = None\<rparr>)
       (on_heap (ProvideScoped child1 Port
          \<lparr>Lifetime = LifetimeOnce, Create = Some 0, AfterPointerUse = None, Free = Some 1\<rparr>) world0)"

text \<open>
  The child provides \<^verbatim>\<open>Port\<close> with the lifetime \<^verbatim>\<open>Once\<close> and funcs that succeed; the memory
  holds one \<^verbatim>\<open>Port\<close> variable, at the address 0, for \<^verbatim>\<open>Hydrate\<close> to fill.
\<close>

definition world_once_ok :: world where
  "world_once_ok =
     on_heap (ProvideScoped child1 Port
        \<lparr>Lifetime = LifetimeOnce, Create = Some 0, AfterPointerUse = None, Free = Some 0\<rparr>)
       (on_heap (\<lambda>h. h\<lparr>mem := [VBasic ''Port'' (LInt 0)]\<rparr>) world0)"

text \<open>
  An application whose \<^verbatim>\<open>Create\<close> 0 resolves a dependency through the scope before it
  builds its value, as the provider of \<^verbatim>\<open>Database\<close> in the README does with
  \<^verbatim>\<open>GetScoped[Env](scope)\<close>: the dependency, a \<^verbatim>\<open>Conn\<close>, is created on the way and ends up
  cached on the global scope, where its provider would be.
\<close>

definition env_nested :: env where
  "env_nested = env0\<lparr>create_fn := (\<lambda>c s h.
      if c = 0
      then ((Some (Suc (length (mem h))), None),
            put_instance (Root 0) Conn (VPointer Conn (Some (length (mem h))))
              (h\<lparr>mem := mem h @ [VBasic ''Conn'' (LStr ''dsn''), VBasic ''Port'' (LInt 8080)]\<rparr>))
      else ((None, Some (UserError ''create failed'')), h))\<rparr>"

text \<open>
  \<^verbatim>\<open>type Config struct { tags map[string]int }\<close> and a variable of this type at address 0
  whose map holds one entry; nothing is provided anywhere. \<^verbatim>\<open>Settings\<close> is the same with the
  field exported.
\<close>

definition Config :: ty where
  "Config = TStruct ''Config'' [(Unexported, TMap (TBasic ''string'' KString) (TBasic ''int'' KInt))]"

definition world_config :: world where
  "world_config = on_heap (\<lambda>h. h\<lparr>mem := [VStruct ''Config''
      [(Unexported, VMap (TBasic ''string'' KString) (TBasic ''int'' KInt)
          (Some [(LStr ''a'', VBasic ''int'' (LInt 1))]))]]\<rparr>) world0"

definition Settings :: ty where
  "Settings = TStruct ''Settings'' [(Exported, TMap (TBasic ''string'' KString) (TBasic ''int'' KInt))]"

definition world_settings :: world where
  "world_settings = on_heap (\<lambda>h. h\<lparr>mem := [VStruct ''Settings''
      [(Exported, VMap (TBasic ''string'' KString) (TBasic ''int'' KInt)
          (Some [(LStr ''a'', VBasic ''int'' (LInt 1))]))]]\<rparr>) world0"

text \<open>
  \<^verbatim>\<open>type Listener struct { port Port }\<close> and a variable of this type at address 0; the child
  provides \<^verbatim>\<open>Port\<close>.
\<close>

definition Listener :: ty where
  "Listener = TStruct ''Listener'' [(Unexported, Port)]"

definition world_listener :: world where
  "world_listener =
     on_heap (ProvideScoped child1 Port
        \<lparr>Lifetime = LifetimeForever, Create = Some 0, AfterPointerUse = None, Free = None\<rparr>)
       (on_heap (\<lambda>h. h\<lparr>mem := [VStruct ''Listener'' [(Unexported, VBasic ''Port'' (LInt 0))]]\<rparr>) world0)"

section \<open>Reading the state after a step\<close>

lemma hp_log [simp]: "hp (log c w) = hp w"
  by (simp add: log_def)

lemma calls_log [simp]: "calls (log c w) = calls w @ [c]"
  by (simp add: log_def)

lemma hp_on_heap [simp]: "hp (on_heap f w) = f (hp w)"
  by (simp add: on_heap_def)

lemma calls_on_heap [simp]: "calls (on_heap f w) = calls w"
  by (simp add: on_heap_def)

lemma alloc_simps [simp]:
  "fst (alloc v w) = length (mem (hp w))"
  "scopes (hp (snd (alloc v w))) = scopes (hp w)"
  "mem (hp (snd (alloc v w))) = mem (hp w) @ [v]"
  "calls (snd (alloc v w)) = calls w"
  by (simp_all add: alloc_def)

lemma put_instance_simps [simp]:
  "mem (put_instance s k v h) = mem h"
  "instances (scopes (put_instance s k v h) s) = (instances (scopes h s))(k \<mapsto> v)"
  "providers (scopes (put_instance s k v h) s') = providers (scopes h s')"
  "Dynamic (scopes (put_instance s k v h) s') = Dynamic (scopes h s')"
  "s' \<noteq> s \<Longrightarrow> scopes (put_instance s k v h) s' = scopes h s'"
  by (simp_all add: put_instance_def)

lemma del_instance_simps [simp]:
  "mem (del_instance s k h) = mem h"
  "instances (scopes (del_instance s k h) s) = (instances (scopes h s))(k := None)"
  "providers (scopes (del_instance s k h) s') = providers (scopes h s')"
  "Dynamic (scopes (del_instance s k h) s') = Dynamic (scopes h s')"
  "s' \<noteq> s \<Longrightarrow> scopes (del_instance s k h) s' = scopes h s'"
  by (simp_all add: del_instance_def)

lemma env0_simps [simp]:
  "create_fn env0 c s h =
     (if c = 0 then ((Some (length (mem h)), None), h\<lparr>mem := mem h @ [VBasic ''Port'' (LInt 8080)]\<rparr>)
      else ((None, Some (UserError ''create failed'')), h))"
  "after_fn env0 f s a h = (None, h)"
  "free_fn env0 f s a h = (if f = 0 then None else Some (UserError ''close failed''), h)"
  "dynamic_fn env0 d k s h = ((if k = Port then Some (VBasic ''Port'' (LInt 42)) else None, None), h)"
  "provide_dynamic env0 t =
     (if t = Gen
      then Some (\<lambda>a s h. (None, h\<lparr>mem := (mem h)[a := VStruct ''Gen'' [(Exported, VBasic ''int'' (LInt 42))]]\<rparr>))
      else None)"
  "implements env0 t n = False"
  "func_body env0 f args h = ([], h)"
  by (simp_all add: env0_def)

lemma env0_quiet: "leaves_scopes_alone env0"
  by (simp add: leaves_scopes_alone_def)

text \<open>The definitions that a run on one of the fixtures unfolds.\<close>

lemmas eval_defs = Scope_Invoke_def hydrateType_def hydrateValue.simps Get_body_def Get_unprovided_def
  Get_dynamic_def GetDynamic_def elemOf_def providerLink_get_def providerLink_free_def
  providerLink_afterPointerUse_def Scope_FreeOnce_def Scope_Free_def Scope_Hydrate_def
  GetScoped_body_def GetScoped_unprovided_def GetScoped_dynamic_def GetScoped_callback_def
  assertV_def assignTo_def isRO_def indexFlag_def alloc_def Let_def
  world0_def child1_def Port_def Conn_def Gen_def empty_scope_def ProvideScoped_def SetScoped_def

section \<open>What a resolution changes\<close>

lemma quiet_create: "leaves_scopes_alone E \<Longrightarrow> create_fn E c s h = (r, h') \<Longrightarrow> scopes h' = scopes h"
  by (metis leaves_scopes_alone_def snd_conv)





lemma quiet_func: "leaves_scopes_alone E \<Longrightarrow> func_body E f args h = (r, h') \<Longrightarrow> scopes h' = scopes h"
  by (metis leaves_scopes_alone_def snd_conv)
























lemma getLink_scopes: "scopes h2 = scopes h \<Longrightarrow> getLink h2 s k = getLink h s k"
  by (induction s) (simp_all split: option.splits)












section \<open>What a teardown changes\<close>

lemma assertPtr_simps [simp]:
  "assertPtr k (VPointer t a) = (if t = k then Some a else None)"
  by (simp add: assertPtr_def)

lemma getLink_providers:
  "(\<And>a. providers (scopes h2 a) = providers (scopes h a)) \<Longrightarrow> getLink h2 s k = getLink h s k"
  by (induction s) (simp_all split: option.splits)

lemma getLink_put_instance [simp]: "getLink (put_instance s k v h) s' k' = getLink h s' k'"
  by (rule getLink_providers) simp

lemma getLink_del_instance [simp]: "getLink (del_instance s k h) s' k' = getLink h s' k'"
  by (rule getLink_providers) simp

lemma typed_instances_scopes: "scopes h2 = scopes h \<Longrightarrow> typed_instances h2 s = typed_instances h s"
  by (simp add: typed_instances_def)

lemma keyed_links_scopes: "scopes h2 = scopes h \<Longrightarrow> keyed_links h2 s = keyed_links h s"
  using getLink_scopes [of h2 h s] by (simp add: keyed_links_def)

lemma typed_instances_del: "typed_instances h s \<Longrightarrow> typed_instances (del_instance s k h) s"
  by (simp add: typed_instances_def)

lemma keyed_links_del: "keyed_links h s \<Longrightarrow> keyed_links (del_instance s' k h) s"
  by (simp add: keyed_links_def)

lemma quiet_free_only: "leaves_scopes_alone E \<Longrightarrow> free_leaves_scopes E s"
  by (simp add: leaves_scopes_alone_def free_leaves_scopes_def)

lemma providerLink_free_quiet:
  assumes q: "free_leaves_scopes E s"
    and inst: "instances (scopes (hp w) s) (key l) = Some (VPointer (key l) a)"
  shows "\<exists>err w1. providerLink_free E l s w = (Ret err, w1) \<and>
           scopes (hp w1) = scopes (del_instance s (key l) (hp w)) \<and>
           calls w1 = calls w @ (case Free (provider l) of None \<Rightarrow> [] | Some f \<Rightarrow> [CallFree f s a])"
proof (cases "Free (provider l)")
  case None
  then show ?thesis by (simp add: providerLink_free_def)
next
  case (Some f)
  obtain err h2 where c: "free_fn E f s a (hp (log (CallFree f s a) w)) = (err, h2)"
    by (metis surj_pair)
  from q have "scopes (snd (free_fn E f s a (hp (log (CallFree f s a) w)))) = scopes (hp w)"
    by (simp add: free_leaves_scopes_def)
  with c have "scopes h2 = scopes (hp w)" by simp
  with Some inst c show ?thesis
    by (simp add: providerLink_free_def del_instance_def)
qed

text \<open>One turn of the range of Free on a key that is still cached.\<close>

lemma Free_range_step:
  assumes q: "free_leaves_scopes E s"
    and typed: "typed_instances (hp w) s" and keyed: "keyed_links (hp w) s"
    and inst: "instances (scopes (hp w) s) k = Some v"
  shows "\<exists>errs1 w1 cs1. (\<forall>ks. Free_range E s (k # ks) errs w = Free_range E s ks errs1 w1) \<and>
           scopes (hp w1) = scopes (del_instance s k (hp w)) \<and>
           calls w1 = calls w @ cs1 \<and>
           (\<forall>l f a. getLink (hp w) s k = Some l \<and> Free (provider l) = Some f \<and> v = VPointer k a
               \<longrightarrow> cs1 = [CallFree f s a])"
proof (cases "getLink (hp w) s k")
  case None
  with inst show ?thesis
    by (intro exI [of _ errs] exI [of _ "on_heap (del_instance s k) w"] exI [of _ "[]"]) simp
next
  case (Some l)
  from keyed Some have kl: "key l = k" by (simp add: keyed_links_def)
  from typed inst obtain a where v: "v = VPointer k a" by (auto simp: typed_instances_def)
  from providerLink_free_quiet [where s = s and w = w and l = l and a = a, OF q] inst kl v
  obtain err w1 where f: "providerLink_free E l s w = (Ret err, w1)"
    "scopes (hp w1) = scopes (del_instance s k (hp w))"
    "calls w1 = calls w @ (case Free (provider l) of None \<Rightarrow> [] | Some f \<Rightarrow> [CallFree f s a])"
    by auto
  show ?thesis
    by (intro exI [of _ "case err of None \<Rightarrow> errs | Some e \<Rightarrow> errs @ [e]"] exI [of _ w1]
          exI [of _ "case Free (provider l) of None \<Rightarrow> [] | Some f \<Rightarrow> [CallFree f s a]"])
       (use Some inst f v in auto)
qed

lemma Free_range_quiet:
  assumes q: "free_leaves_scopes E s"
  shows "typed_instances (hp w) s \<Longrightarrow> keyed_links (hp w) s \<Longrightarrow>
     \<exists>errs' w' cs. Free_range E s ks errs w = (Ret errs', w') \<and> calls w' = calls w @ cs \<and>
        (\<forall>a. a \<noteq> s \<longrightarrow> scopes (hp w') a = scopes (hp w) a) \<and>
        providers (scopes (hp w') s) = providers (scopes (hp w) s) \<and>
        (\<forall>k. instances (scopes (hp w') s) k
               = (if k \<in> set ks then None else instances (scopes (hp w) s) k)) \<and>
        (\<forall>k l f a. k \<in> set ks \<and> instances (scopes (hp w) s) k = Some (VPointer k a) \<and>
             getLink (hp w) s k = Some l \<and> Free (provider l) = Some f \<longrightarrow> CallFree f s a \<in> set cs)"
proof (induction ks arbitrary: w errs)
  case Nil
  show ?case by simp
next
  case (Cons k ks)
  show ?case
  proof (cases "instances (scopes (hp w) s) k")
    case None
    from Cons.IH [OF Cons.prems, of errs] obtain errs' w' cs where
      ih: "Free_range E s ks errs w = (Ret errs', w')" "calls w' = calls w @ cs"
        "\<forall>a. a \<noteq> s \<longrightarrow> scopes (hp w') a = scopes (hp w) a"
        "providers (scopes (hp w') s) = providers (scopes (hp w) s)"
        "\<forall>k. instances (scopes (hp w') s) k = (if k \<in> set ks then None else instances (scopes (hp w) s) k)"
        "\<forall>k l f a. k \<in> set ks \<and> instances (scopes (hp w) s) k = Some (VPointer k a) \<and>
             getLink (hp w) s k = Some l \<and> Free (provider l) = Some f \<longrightarrow> CallFree f s a \<in> set cs"
      by blast
    show ?thesis
      by (intro exI [of _ errs'] exI [of _ w'] exI [of _ cs]) (use None ih in auto)
  next
    case (Some v)
    from Free_range_step [OF q Cons.prems Some, of errs] obtain errs1 w1 cs1 where
      st: "\<And>ks. Free_range E s (k # ks) errs w = Free_range E s ks errs1 w1"
        "scopes (hp w1) = scopes (del_instance s k (hp w))" "calls w1 = calls w @ cs1"
        "\<forall>l f a. getLink (hp w) s k = Some l \<and> Free (provider l) = Some f \<and> v = VPointer k a
               \<longrightarrow> cs1 = [CallFree f s a]"
      by blast
    have t1: "typed_instances (hp w1) s"
      using typed_instances_scopes [OF st(2)] typed_instances_del [OF Cons.prems(1)] by simp
    have k1: "keyed_links (hp w1) s"
      using keyed_links_scopes [OF st(2)] keyed_links_del [OF Cons.prems(2)] by simp
    have g1: "getLink (hp w1) s k' = getLink (hp w) s k'" for k'
      using getLink_scopes [OF st(2)] by simp
    from Cons.IH [OF t1 k1, of errs1] obtain errs' w' cs where
      ih: "Free_range E s ks errs1 w1 = (Ret errs', w')" "calls w' = calls w1 @ cs"
        "\<forall>a. a \<noteq> s \<longrightarrow> scopes (hp w') a = scopes (hp w1) a"
        "providers (scopes (hp w') s) = providers (scopes (hp w1) s)"
        "\<forall>k. instances (scopes (hp w') s) k = (if k \<in> set ks then None else instances (scopes (hp w1) s) k)"
        "\<forall>k l f a. k \<in> set ks \<and> instances (scopes (hp w1) s) k = Some (VPointer k a) \<and>
             getLink (hp w1) s k = Some l \<and> Free (provider l) = Some f \<longrightarrow> CallFree f s a \<in> set cs"
      by blast
    show ?thesis
    proof (intro exI [of _ errs'] exI [of _ w'] exI [of _ "cs1 @ cs"] conjI allI impI)
      show "Free_range E s (k # ks) errs w = (Ret errs', w')" using st(1) ih(1) by simp
      show "calls w' = calls w @ cs1 @ cs" using st(3) ih(2) by simp
      show "scopes (hp w') a = scopes (hp w) a" if "a \<noteq> s" for a using that ih(3) st(2) by simp
      show "providers (scopes (hp w') s) = providers (scopes (hp w) s)" using ih(4) st(2) by simp
      show "instances (scopes (hp w') s) k' = (if k' \<in> set (k # ks) then None else instances (scopes (hp w) s) k')"
        for k' using ih(5) st(2) by simp
      show "CallFree f s a \<in> set (cs1 @ cs)"
        if "k' \<in> set (k # ks) \<and> instances (scopes (hp w) s) k' = Some (VPointer k' a) \<and>
             getLink (hp w) s k' = Some l \<and> Free (provider l) = Some f" for k' l f a
      proof (cases "k' = k")
        case True
        with that Some st(4) show ?thesis by auto
      next
        case False
        with that have "k' \<in> set ks" by simp
        moreover have "instances (scopes (hp w1) s) k' = Some (VPointer k' a)"
          using that False st(2) by simp
        moreover have "getLink (hp w1) s k' = Some l" using that g1 by simp
        ultimately have "CallFree f s a \<in> set cs" using ih(6) that by blast
        then show ?thesis by simp
      qed
    qed
  qed
qed


lemma typed_instances_put:
  "typed_instances h s \<Longrightarrow> typed_instances (put_instance s k (VPointer k a) h) s"
  by (simp add: typed_instances_def)

lemma keyed_links_put: "keyed_links h s \<Longrightarrow> keyed_links (put_instance s' k v h) s"
  by (simp add: keyed_links_def)

lemma Scope_Get_scope_lifetime:
  assumes link: "getLink (hp w) s k = Some l" "Lifetime (provider l) = LifetimeScope"
      "Create (provider l) = Some c" "key l = k"
    and nocache: "instances (scopes (hp w) s) k = None"
    and created: "create_fn E c s (hp w) = ((a, None), h1)"
  shows "Scope_Get E s k w =
           (Ret (Some (VPointer k a), None),
            on_heap (put_instance s k (VPointer k a)) ((log (CallCreate c s) w)\<lparr>hp := h1\<rparr>))"
proof -
  have "Get_body E par s k w =
           (Ret (Some (VPointer k a), None),
            on_heap (put_instance s k (VPointer k a)) ((log (CallCreate c s) w)\<lparr>hp := h1\<rparr>))" for par
    using assms by (simp add: Get_body_def Let_def providerLink_get_def)
  then show ?thesis by (cases s) simp_all
qed

section \<open>What hydration and invocation change\<close>






lemma same_providers_scopes: "scopes (hp w') = scopes (hp w) \<Longrightarrow> same_providers w w'"
  by (simp add: same_providers_def)











lemma shrinks_scopes: "scopes (hp w') = scopes (hp w) \<Longrightarrow> shrinks w w'"
  by (simp add: shrinks_def same_providers_def)










section \<open>The calls of an invocation\<close>

lemma kindOf_zeroLit [simp]: "kindOf (zeroLit b) = b"
  by (cases b) simp_all

lemma typeOf_zero:
  "typeOf (zero t) = t"
  "typeOfFields (zeroFields fs) = fs"
  by (induction t and fs rule: zero_zeroFields.induct) simp_all

lemma Scope_Get_cached:
  "instances (scopes (hp w) s) k = Some i \<Longrightarrow> Scope_Get E s k w = (Ret (Some i, None), w)"
  by (cases s) (simp_all add: Get_body_def)

lemma GetScoped_cached:
  "instances (scopes (hp w) s) k = Some (VPointer k a) \<Longrightarrow> GetScoped E s k w = (Ret (a, None), w)"
  by (cases s) (simp_all add: GetScoped_body_def)

lemma providerLink_afterPointerUse_calls:
  "providerLink_afterPointerUse E l s w = (r, w') \<Longrightarrow> \<exists>cs. calls w' = calls w @ cs"
  by (auto simp: providerLink_afterPointerUse_def Let_def split: option.splits prod.splits)

lemma Invoke_after_calls:
  "Invoke_after E s args w = (r, w') \<Longrightarrow> \<exists>cs. calls w' = calls w @ cs"
proof (induction args arbitrary: w r w')
  case Nil
  then show ?case by simp
next
  case (Cons a args)
  show ?case
  proof (cases "\<exists>t p l. a = VPointer t p \<and> providers (scopes (hp w) s) t = Some l")
    case False
    with Cons.prems have "Invoke_after E s args w = (r, w')"
      by (cases a) (auto split: option.splits)
    then show ?thesis by (rule Cons.IH)
  next
    case True
    then obtain t p l where a: "a = VPointer t p" "providers (scopes (hp w) s) t = Some l" by blast
    obtain g w1 where g: "providerLink_afterPointerUse E l s w = (g, w1)"
      by (cases "providerLink_afterPointerUse E l s w")
    from providerLink_afterPointerUse_calls [OF g] obtain cs1 where c1: "calls w1 = calls w @ cs1" ..
    show ?thesis
    proof (cases "g = Ret None")
      case False
      with Cons.prems a g have "w' = w1" by (auto split: outcome.splits if_splits)
      with c1 show ?thesis by simp
    next
      case True
      with Cons.prems a g have "Invoke_after E s args w1 = (r, w')" by simp
      from Cons.IH [OF this] c1 show ?thesis by auto
    qed
  qed
qed

lemma providerLink_free_calls:
  "providerLink_free E l s w = (r, w') \<Longrightarrow> \<exists>cs. calls w' = calls w @ cs"
  by (auto simp: providerLink_free_def Let_def split: option.splits prod.splits)

lemma FreeOnce_range_calls:
  "FreeOnce_range E s ks errs w = (r, w') \<Longrightarrow> \<exists>cs. calls w' = calls w @ cs"
proof (induction ks arbitrary: w errs)
  case Nil
  then show ?case by simp
next
  case (Cons k ks)
  show ?case
  proof (cases "instances (scopes (hp w) s) k")
    case None
    with Cons.prems have "FreeOnce_range E s ks errs w = (r, w')" by simp
    then show ?thesis by (rule Cons.IH)
  next
    case (Some v)
    note inst = Some
    show ?thesis
    proof (cases "getLink (hp w) s k")
      case None
      with Cons.prems inst have "FreeOnce_range E s ks errs (on_heap (del_instance s k) w) = (r, w')"
        by simp
      from Cons.IH [OF this] show ?thesis by simp
    next
      case (Some l)
      show ?thesis
      proof (cases "Lifetime (provider l) = LifetimeOnce")
        case False
        with Cons.prems inst Some have "FreeOnce_range E s ks errs w = (r, w')" by simp
        then show ?thesis by (rule Cons.IH)
      next
        case True
        obtain g w1 where g: "providerLink_free E l s w = (g, w1)"
          by (cases "providerLink_free E l s w")
        from providerLink_free_calls [OF g] obtain cs1 where c1: "calls w1 = calls w @ cs1" ..
        show ?thesis
        proof (cases g)
          case (Panic m)
          with Cons.prems inst Some True g have "w' = w1" by simp
          with c1 show ?thesis by simp
        next
          case (Ret err)
          with Cons.prems inst Some True g
          have "FreeOnce_range E s ks (case err of None \<Rightarrow> errs | Some e \<Rightarrow> errs @ [e]) w1 = (r, w')"
            by simp
          from Cons.IH [OF this] c1 show ?thesis by auto
        qed
      qed
    qed
  qed
qed

lemma Scope_FreeOnce_calls:
  "Scope_FreeOnce E s ks w = (r, w') \<Longrightarrow> \<exists>cs. calls w' = calls w @ cs"
proof -
  assume run: "Scope_FreeOnce E s ks w = (r, w')"
  obtain g w1 where g: "FreeOnce_range E s ks [] w = (g, w1)" by (cases "FreeOnce_range E s ks [] w")
  with run have "w' = w1" by (auto simp: Scope_FreeOnce_def split: outcome.splits)
  with FreeOnce_range_calls [OF g] show ?thesis by simp
qed

lemma Scope_Invoke_calls_func:
  assumes args: "Invoke_args E s ps w = (Ret (args, None), w1)" and ty: "map typeOf args = ps"
  shows "\<exists>cs. calls (snd (Scope_Invoke E s ks (Some (VFunc ps (Some f))) w))
            = calls w1 @ CallFunc f args # cs"
proof -
  obtain results h3 where b: "func_body E f args (hp (log (CallFunc f args) w1)) = (results, h3)"
    by (metis surj_pair)
  define w3 where "w3 = (log (CallFunc f args) w1)\<lparr>hp := h3\<rparr>"
  have c3: "calls w3 = calls w1 @ [CallFunc f args]" by (simp add: w3_def)
  obtain g4 w4 where g4: "Invoke_after E s args w3 = (g4, w4)" by (cases "Invoke_after E s args w3")
  from Invoke_after_calls [OF g4] obtain cs4 where c4: "calls w4 = calls w3 @ cs4" ..
  obtain g5 w5 where g5: "Scope_FreeOnce E s ks w4 = (g5, w5)" by (cases "Scope_FreeOnce E s ks w4")
  from Scope_FreeOnce_calls [OF g5] obtain cs5 where c5: "calls w5 = calls w4 @ cs5" ..
  have "snd (Scope_Invoke E s ks (Some (VFunc ps (Some f))) w) = w4
      \<or> snd (Scope_Invoke E s ks (Some (VFunc ps (Some f))) w) = w5"
    using args ty b g4 g5
    by (auto simp: Scope_Invoke_def Let_def w3_def split: outcome.splits)
  with c3 c4 c5 show ?thesis by auto
qed

section \<open>A single Once instance\<close>

lemma getLink_local: "providers (scopes h s) k = Some l \<Longrightarrow> getLink h s k = Some l"
  by (cases s) simp_all

lemma Scope_Get_local_create:
  assumes link: "providers (scopes (hp w) s) k = Some l" "key l = k" "Create (provider l) = Some c"
    and nocache: "instances (scopes (hp w) s) k = None"
    and created: "create_fn E c s (hp w) = ((a, None), h1)"
  shows "Scope_Get E s k w =
           (Ret (Some (VPointer k a), None),
            on_heap (put_instance s k (VPointer k a)) ((log (CallCreate c s) w)\<lparr>hp := h1\<rparr>))"
proof -
  have "Get_body E par s k w =
           (Ret (Some (VPointer k a), None),
            on_heap (put_instance s k (VPointer k a)) ((log (CallCreate c s) w)\<lparr>hp := h1\<rparr>))" for par
    using assms getLink_local [OF link(1)] by (simp add: Get_body_def Let_def providerLink_get_def)
  then show ?thesis by (cases s) simp_all
qed

lemma FreeOnce_range_empty:
  "instances (scopes (hp w) s) = Map.empty \<Longrightarrow> FreeOnce_range E s ks errs w = (Ret errs, w)"
  by (induction ks) simp_all

lemma FreeOnce_range_single:
  assumes q: "leaves_scopes_alone E"
    and link: "getLink (hp w) s k = Some l" "key l = k" "Lifetime (provider l) = LifetimeOnce"
      "Free (provider l) = Some f"
    and inst: "instances (scopes (hp w) s) = [k \<mapsto> VPointer k a]"
  shows "k \<in> set ks \<Longrightarrow>
     \<exists>err w'. FreeOnce_range E s ks errs w = (Ret (case err of None \<Rightarrow> errs | Some e \<Rightarrow> errs @ [e]), w') \<and>
        calls w' = calls w @ [CallFree f s a] \<and> instances (scopes (hp w') s) = Map.empty"
proof (induction ks)
  case Nil
  then show ?case by simp
next
  case (Cons k0 ks)
  show ?case
  proof (cases "k0 = k")
    case True
    from providerLink_free_quiet [where s = s and w = w and l = l and a = a, OF quiet_free_only [OF q]] inst link
    obtain err w1 where f: "providerLink_free E l s w = (Ret err, w1)"
      "scopes (hp w1) = scopes (del_instance s k (hp w))" "calls w1 = calls w @ [CallFree f s a]"
      by auto
    from f(2) inst have e: "instances (scopes (hp w1) s) = Map.empty" by simp
    from FreeOnce_range_empty [OF e]
    have "FreeOnce_range E s (k0 # ks) errs w
            = (Ret (case err of None \<Rightarrow> errs | Some e \<Rightarrow> errs @ [e]), w1)"
      using True inst link f(1) by simp
    with f(3) e show ?thesis by blast
  next
    case False
    with Cons.prems have "k \<in> set ks" by simp
    from Cons.IH [OF this] False inst show ?thesis by simp
  qed
qed

section \<open>Setting a constant\<close>




section \<open>Scope lifetime: the requesting scope owns the instance\<close>

text \<open>
  C1. Let the nearest provider link for the key, seen from the scope \<open>s\<close>, have the
  lifetime \<^verbatim>\<open>Scope\<close> (it may be registered on any ancestor) and be stored under its own key,
  as \<^verbatim>\<open>ProvideScoped\<close> stores it; let \<open>s\<close> cache nothing for the key, and let \<^verbatim>\<open>Create\<close> succeed
  with the pointer \<open>a\<close>. Nothing is asked of \<^verbatim>\<open>Create\<close>: it may resolve dependencies of its
  own through the scope and so change the maps of scopes. Then \<^verbatim>\<open>s.Get\<close> calls \<^verbatim>\<open>Create\<close>
  once, with \<open>s\<close>, returns the pointer and caches it on \<open>s\<close>; this entry is all that is added
  to the heap that \<^verbatim>\<open>Create\<close> left, so the resolution populates the map of no other scope.
  Whenever \<open>s\<close> still caches the instance under this link, \<^verbatim>\<open>s.Free\<close>, in whatever order
  its range takes the keys, calls the provider's \<^verbatim>\<open>Free\<close> with \<open>s\<close> and that pointer and
  removes the entry. For this half the instances of \<open>s\<close> are pointers stored under their
  own type and links are stored under their own key, which every entry point of the
  package keeps, and the \<^verbatim>\<open>Free\<close> funcs that are called with \<open>s\<close> leave the scopes alone:
  \<^verbatim>\<open>Free\<close> ranges over the map while it calls them, and an entry that one of them removed
  would not be reached.
\<close>

theorem scope_lifetime_cached_on_requester:
  assumes link: "getLink (hp w) s k = Some l" "key l = k"
      "Lifetime (provider l) = LifetimeScope" "Create (provider l) = Some c"
    and nocache: "instances (scopes (hp w) s) k = None"
    and created: "create_fn E c s (hp w) = ((a, None), h1)"
  shows "\<exists>w1. Scope_Get E s k w = (Ret (Some (VPointer k a), None), w1) \<and>
           calls w1 = calls w @ [CallCreate c s] \<and>
           hp w1 = put_instance s k (VPointer k a) h1 \<and>
           instances (scopes (hp w1) s) k = Some (VPointer k a) \<and>
           (\<forall>anc. anc \<noteq> s \<longrightarrow> scopes (hp w1) anc = scopes h1 anc) \<and>
           (\<forall>w2 ks f.
              free_leaves_scopes E s \<and> typed_instances (hp w2) s \<and> keyed_links (hp w2) s \<and>
              instances (scopes (hp w2) s) k = Some (VPointer k a) \<and>
              getLink (hp w2) s k = Some l \<and> Free (provider l) = Some f \<and> k \<in> set ks \<longrightarrow>
              (\<exists>e w3 cs. Scope_Free E s ks w2 = (Ret e, w3) \<and>
                 calls w3 = calls w2 @ cs \<and> CallFree f s a \<in> set cs \<and>
                 instances (scopes (hp w3) s) k = None))"
proof -
  define w1 where "w1 = on_heap (put_instance s k (VPointer k a)) ((log (CallCreate c s) w)\<lparr>hp := h1\<rparr>)"
  have get: "Scope_Get E s k w = (Ret (Some (VPointer k a), None), w1)"
    unfolding w1_def by (rule Scope_Get_scope_lifetime [OF link(1,3,4,2) nocache created])
  have free: "\<exists>e w3 cs. Scope_Free E s ks w2 = (Ret e, w3) \<and>
                 calls w3 = calls w2 @ cs \<and> CallFree f s a \<in> set cs \<and>
                 instances (scopes (hp w3) s) k = None"
    if fq: "free_leaves_scopes E s" and typed: "typed_instances (hp w2) s"
      and keyed: "keyed_links (hp w2) s"
      and inst: "instances (scopes (hp w2) s) k = Some (VPointer k a)"
      and lk: "getLink (hp w2) s k = Some l" and fr: "Free (provider l) = Some f"
      and range: "k \<in> set ks" for w2 ks f
  proof -
    from Free_range_quiet [OF fq typed keyed, of ks "[]"] obtain errs' w3 cs where
      r: "Free_range E s ks [] w2 = (Ret errs', w3)" "calls w3 = calls w2 @ cs"
        "\<forall>k. instances (scopes (hp w3) s) k = (if k \<in> set ks then None else instances (scopes (hp w2) s) k)"
        "\<forall>k l f a. k \<in> set ks \<and> instances (scopes (hp w2) s) k = Some (VPointer k a) \<and>
             getLink (hp w2) s k = Some l \<and> Free (provider l) = Some f \<longrightarrow> CallFree f s a \<in> set cs"
      by blast
    from r(4) range inst lk fr have called: "CallFree f s a \<in> set cs" by blast
    have "Scope_Free E s ks w2 = (Ret (if length errs' > 0 then Some (MultiError errs') else None), w3)"
      using r(1) by (simp add: Scope_Free_def)
    moreover have "instances (scopes (hp w3) s) k = None" using r(3) range by simp
    ultimately show ?thesis using r(2) called by blast
  qed
  have "Scope_Get E s k w = (Ret (Some (VPointer k a), None), w1) \<and>
           calls w1 = calls w @ [CallCreate c s] \<and>
           hp w1 = put_instance s k (VPointer k a) h1 \<and>
           instances (scopes (hp w1) s) k = Some (VPointer k a) \<and>
           (\<forall>anc. anc \<noteq> s \<longrightarrow> scopes (hp w1) anc = scopes h1 anc) \<and>
           (\<forall>w2 ks f.
              free_leaves_scopes E s \<and> typed_instances (hp w2) s \<and> keyed_links (hp w2) s \<and>
              instances (scopes (hp w2) s) k = Some (VPointer k a) \<and>
              getLink (hp w2) s k = Some l \<and> Free (provider l) = Some f \<and> k \<in> set ks \<longrightarrow>
              (\<exists>e w3 cs. Scope_Free E s ks w2 = (Ret e, w3) \<and>
                 calls w3 = calls w2 @ cs \<and> CallFree f s a \<in> set cs \<and>
                 instances (scopes (hp w3) s) k = None))"
  proof (intro conjI allI impI)
    show "Scope_Get E s k w = (Ret (Some (VPointer k a), None), w1)" by (rule get)
    show "calls w1 = calls w @ [CallCreate c s]" by (simp add: w1_def)
    show "hp w1 = put_instance s k (VPointer k a) h1" by (simp add: w1_def)
    show "instances (scopes (hp w1) s) k = Some (VPointer k a)" by (simp add: w1_def)
    show "scopes (hp w1) anc = scopes h1 anc" if "anc \<noteq> s" for anc using that by (simp add: w1_def)
    show "\<exists>e w3 cs. Scope_Free E s ks w2 = (Ret e, w3) \<and>
                 calls w3 = calls w2 @ cs \<and> CallFree f s a \<in> set cs \<and>
                 instances (scopes (hp w3) s) k = None"
      if "free_leaves_scopes E s \<and> typed_instances (hp w2) s \<and> keyed_links (hp w2) s \<and>
              instances (scopes (hp w2) s) k = Some (VPointer k a) \<and>
              getLink (hp w2) s k = Some l \<and> Free (provider l) = Some f \<and> k \<in> set ks" for w2 ks f
      using that by (intro free) simp_all
  qed
  then show ?thesis by blast
qed


theorem scope_lifetime_cached_on_requester_witness:
  "getLink (hp world_scoped) child1 Port
     = Some \<lparr>provider = \<lparr>Lifetime = LifetimeScope, Create = Some 0, AfterPointerUse = None,
                           Free = Some 0\<rparr>, key = Port\<rparr> \<and>
   providers (scopes (hp world_scoped) child1) Port = None \<and>
   free_leaves_scopes env_nested child1 \<and>
   fst (Scope_Get env_nested child1 Port world_scoped) = Ret (Some (VPointer Port (Some 1)), None) \<and>
   calls (snd (Scope_Get env_nested child1 Port world_scoped)) = [CallCreate 0 child1] \<and>
   instances (scopes (hp (snd (Scope_Get env_nested child1 Port world_scoped))) child1) Port
     = Some (VPointer Port (Some 1)) \<and>
   instances (scopes (hp (snd (Scope_Get env_nested child1 Port world_scoped))) (Root 0)) Port = None \<and>
   instances (scopes (hp (snd (Scope_Get env_nested child1 Port world_scoped))) (Root 0)) Conn
     = Some (VPointer Conn (Some 0)) \<and>
   CallFree 0 child1 (Some 1)
     \<in> set (calls (snd (Scope_Free env_nested child1 [Port]
          (snd (Scope_Get env_nested child1 Port world_scoped))))) \<and>
   instances (scopes (hp (snd (Scope_Free env_nested child1 [Port]
       (snd (Scope_Get env_nested child1 Port world_scoped))))) child1) Port = None"
proof -
  let ?l = "\<lparr>provider = \<lparr>Lifetime = LifetimeScope, Create = Some 0, AfterPointerUse = None,
                           Free = Some 0\<rparr>, key = Port\<rparr>"
  let ?h1 = "put_instance (Root 0) Conn (VPointer Conn (Some 0))
      ((hp world_scoped)\<lparr>mem := [VBasic ''Conn'' (LStr ''dsn''), VBasic ''Port'' (LInt 8080)]\<rparr>)"
  have link: "getLink (hp world_scoped) child1 Port = Some ?l"
    and none: "providers (scopes (hp world_scoped) child1) Port = None"
      "instances (scopes (hp world_scoped) child1) Port = None"
      "instances (scopes (hp world_scoped) (Root 0)) Port = None"
    and m0: "mem (hp world_scoped) = []" and c0: "calls world_scoped = []"
    by (simp_all add: world_scoped_def world0_def ProvideScoped_def empty_scope_def child1_def)
  have fq: "free_leaves_scopes env_nested child1"
    by (simp add: free_leaves_scopes_def env_nested_def)
  have created: "create_fn env_nested 0 child1 (hp world_scoped) = ((Some 1, None), ?h1)"
    by (simp add: env_nested_def m0)
  from scope_lifetime_cached_on_requester [OF link _ _ _ none(2) created]
  obtain w1 where
    g: "Scope_Get env_nested child1 Port world_scoped = (Ret (Some (VPointer Port (Some 1)), None), w1)"
    and c1: "calls w1 = calls world_scoped @ [CallCreate 0 child1]"
    and h1: "hp w1 = put_instance child1 Port (VPointer Port (Some 1)) ?h1"
    and fr: "\<forall>w2 ks f.
              free_leaves_scopes env_nested child1 \<and> typed_instances (hp w2) child1 \<and>
              keyed_links (hp w2) child1 \<and>
              instances (scopes (hp w2) child1) Port = Some (VPointer Port (Some 1)) \<and>
              getLink (hp w2) child1 Port = Some ?l \<and> Free (provider ?l) = Some f \<and> Port \<in> set ks \<longrightarrow>
              (\<exists>e w3 cs. Scope_Free env_nested child1 ks w2 = (Ret e, w3) \<and>
                 calls w3 = calls w2 @ cs \<and> CallFree f child1 (Some 1) \<in> set cs \<and>
                 instances (scopes (hp w3) child1) Port = None)"
    by auto
  have ne: "Root 0 \<noteq> child1" "child1 \<noteq> Root 0" by (simp_all add: child1_def)
  have typed: "typed_instances (hp w1) child1"
    unfolding h1
    by (simp add: typed_instances_def ne world_scoped_def world0_def ProvideScoped_def empty_scope_def)
  have l1: "getLink (hp w1) child1 k = getLink (hp world_scoped) child1 k" for k
    by (rule getLink_providers) (simp add: h1)
  have keyed: "keyed_links (hp w1) child1"
    by (simp add: keyed_links_def l1)
       (simp add: world_scoped_def world0_def ProvideScoped_def empty_scope_def child1_def)
  have i1: "instances (scopes (hp w1) child1) Port = Some (VPointer Port (Some 1))"
    unfolding h1 by simp
  from fr [rule_format, of w1 0 "[Port]"] fq typed keyed i1 l1 [of Port] link
  obtain e w3 cs where
    f: "Scope_Free env_nested child1 [Port] w1 = (Ret e, w3)" "calls w3 = calls w1 @ cs"
      "CallFree 0 child1 (Some 1) \<in> set cs" "instances (scopes (hp w3) child1) Port = None"
    by auto
  have r: "instances (scopes (hp w1) (Root 0)) Port = None"
      "instances (scopes (hp w1) (Root 0)) Conn = Some (VPointer Conn (Some 0))"
    unfolding h1 using none(3) by (simp_all add: ne Port_def Conn_def)
  show ?thesis using link none fq g c1 c0 i1 r f by simp
qed

section \<open>Delegation to the parent and the dynamic fallback\<close>

text \<open>
  C2, as the code has it. A scope with no cached instance and no provider of its own for
  the key, whose nearest provider link (if there is one) does not have the lifetime
  \<^verbatim>\<open>Scope\<close>, asks its parent first. A value, a panic or an error other than
  \<^verbatim>\<open>ErrNoProvider\<close> from the parent is the result. On \<^verbatim>\<open>ErrNoProvider\<close> the scope runs its
  own dynamic fallback, in the state the parent left; the root runs it at once.
\<close>

theorem Get_delegates_then_falls_back:
  assumes "instances (scopes (hp w) s) k = None"
    and "providers (scopes (hp w) s) k = None"
    and "\<forall>l. getLink (hp w) s k = Some l \<longrightarrow> Lifetime (provider l) \<noteq> LifetimeScope"
  shows "Scope_Get E s k w =
     (case s of
        Root n \<Rightarrow> Get_dynamic E s k w
      | Child n p \<Rightarrow>
          (case Scope_Get E p k w of
             (Panic msg, w1) \<Rightarrow> (Panic msg, w1)
           | (Ret (pv, err), w1) \<Rightarrow>
               if err = Some ErrNoProvider then Get_dynamic E s k w1 else (Ret (pv, err), w1)))"
proof -
  have body: "Get_body E par s k w = Get_unprovided E par s k w" for par
    using assms by (cases "getLink (hp w) s k") (simp_all add: Get_body_def Let_def)
  show ?thesis
  proof (cases s)
    case (Root n)
    then show ?thesis using body [of None] by (simp add: Get_unprovided_def)
  next
    case (Child n p)
    obtain r0 w1 where p: "Scope_Get E p k w = (r0, w1)" by (cases "Scope_Get E p k w")
    show ?thesis
    proof (cases r0)
      case (Panic m)
      with Child p body [of "Some (Scope_Get E p k)"] show ?thesis
        by (simp add: Get_unprovided_def)
    next
      case (Ret x)
      obtain pv err where "x = (pv, err)" by (cases x)
      with Ret Child p body [of "Some (Scope_Get E p k)"] show ?thesis
        by (auto simp: Get_unprovided_def)
    qed
  qed
qed

theorem Get_delegates_then_falls_back_witness:
  "instances (scopes (hp world_forever) child1) Port = None \<and>
   providers (scopes (hp world_forever) child1) Port = None \<and>
   getLink (hp world_forever) child1 Port
     = Some \<lparr>provider = \<lparr>Lifetime = LifetimeForever, Create = Some 0, AfterPointerUse = None,
                           Free = Some 0\<rparr>, key = Port\<rparr> \<and>
   Scope_Get env0 child1 Port world_forever = Scope_Get env0 (Root 0) Port world_forever \<and>
   fst (Scope_Get env0 child1 Port world_forever) = Ret (Some (VPointer Port (Some 0)), None) \<and>
   getLink (hp world_dynamic) child1 Port = None \<and>
   Scope_Get env0 child1 Port world_dynamic = Get_dynamic env0 child1 Port world_dynamic"
  using Get_delegates_then_falls_back [of world_forever child1 Port env0]
    Get_delegates_then_falls_back [of world_dynamic child1 Port env0]
  by (simp add: world_forever_def world_dynamic_def world0_def child1_def ProvideScoped_def
      empty_scope_def Get_body_def Get_unprovided_def Get_dynamic_def GetDynamic_def
      providerLink_get_def Port_def Gen_def)

text \<open>
  C2, as the claim states it, fails. The child below has a parent, no cached instance and
  no provider link anywhere, and its parent's result is \<^verbatim>\<open>ErrNoProvider\<close>; its own \<^verbatim>\<open>Get\<close>
  returns the value of its \<^verbatim>\<open>Dynamic\<close> func, which ran on the child and not on the root.
\<close>

theorem Get_parent_result_counterexample:
  "parent child1 = Some (Root 0) \<and>
   instances (scopes (hp world_dynamic) child1) Port = None \<and>
   getLink (hp world_dynamic) child1 Port = None \<and>
   fst (Scope_Get env0 (Root 0) Port world_dynamic) = Ret (None, Some ErrNoProvider) \<and>
   fst (Scope_Get env0 child1 Port world_dynamic) = Ret (Some (VBasic ''Port'' (LInt 42)), None) \<and>
   calls (snd (Scope_Get env0 child1 Port world_dynamic)) = [CallDynamic 0 Port child1]"
  by (simp add: world_dynamic_def world0_def child1_def empty_scope_def Port_def Gen_def
      Get_body_def Get_unprovided_def Get_dynamic_def GetDynamic_def)

section \<open>Constants\<close>

text \<open>
  C3, as the code has it. \<^verbatim>\<open>SetScoped(s, &v)\<close> stores the pointer under the key of its
  type. While that entry is in the instance map of \<open>s\<close>, \<^verbatim>\<open>GetScoped\<close> and \<^verbatim>\<open>s.Get\<close> return
  that pointer and change nothing, so every further call returns it again; \<^verbatim>\<open>s.Invoke\<close>
  calls a func that takes a \<^verbatim>\<open>*T\<close> with that pointer, and a func that takes a \<^verbatim>\<open>T\<close> (for a \<open>T\<close>
  that is not itself a pointer type) with the value the pointer points to.
\<close>

theorem constant_is_identity_stable:
  "instances (scopes (hp (SetScoped s k a w0)) s) k = Some (VPointer k a) \<and>
   (instances (scopes (hp w) s) k = Some (VPointer k a) \<longrightarrow>
      GetScoped E s k w = (Ret (a, None), w) \<and>
      Scope_Get E s k w = (Ret (Some (VPointer k a), None), w) \<and>
      (\<exists>cs. calls (snd (Scope_Invoke E s ks (Some (VFunc [TPointer k] (Some f))) w))
               = calls w @ CallFunc f [VPointer k a] # cs) \<and>
      ((\<forall>t. k \<noteq> TPointer t) \<and> a = Some p \<and> p < length (mem (hp w)) \<and> typeOf (mem (hp w) ! p) = k
         \<longrightarrow> (\<exists>cs. calls (snd (Scope_Invoke E s ks (Some (VFunc [k] (Some f))) w))
                      = calls w @ CallFunc f [mem (hp w) ! p] # cs)))"
proof (intro conjI impI)
  show "instances (scopes (hp (SetScoped s k a w0)) s) k = Some (VPointer k a)"
    by (simp add: SetScoped_def)
next
  assume inst: "instances (scopes (hp w) s) k = Some (VPointer k a)"
  show "GetScoped E s k w = (Ret (a, None), w)" by (rule GetScoped_cached [OF inst])
  show get: "Scope_Get E s k w = (Ret (Some (VPointer k a), None), w)" by (rule Scope_Get_cached [OF inst])
  have "Invoke_args E s [TPointer k] w = (Ret ([VPointer k a], None), w)"
    by (simp add: hydrateType_def get)
  from Scope_Invoke_calls_func [OF this]
  show "\<exists>cs. calls (snd (Scope_Invoke E s ks (Some (VFunc [TPointer k] (Some f))) w))
               = calls w @ CallFunc f [VPointer k a] # cs" by simp
next
  assume inst: "instances (scopes (hp w) s) k = Some (VPointer k a)"
    and v: "(\<forall>t. k \<noteq> TPointer t) \<and> a = Some p \<and> p < length (mem (hp w)) \<and> typeOf (mem (hp w) ! p) = k"
  have get: "Scope_Get E s k w = (Ret (Some (VPointer k a), None), w)" by (rule Scope_Get_cached [OF inst])
  have hv: "hydrateValue E s (False, False) (zero k) w = (Ret (mem (hp w) ! p, None), w)"
    using v by (simp add: hydrateValue.simps typeOf_zero get elemOf_def isRO_def assignTo_def)
  have "hydrateType E s k w = (Ret (Some (mem (hp w) ! p), None), w)"
    using v hv by (cases k) (simp_all add: hydrateType_def)
  then have "Invoke_args E s [k] w = (Ret ([mem (hp w) ! p], None), w)" by simp
  from Scope_Invoke_calls_func [OF this] v
  show "\<exists>cs. calls (snd (Scope_Invoke E s ks (Some (VFunc [k] (Some f))) w))
                      = calls w @ CallFunc f [mem (hp w) ! p] # cs" by simp
qed

theorem constant_is_identity_stable_witness:
  "instances (scopes (hp world_const) child1) Port = Some (VPointer Port (Some 0)) \<and>
   GetScoped env0 child1 Port world_const = (Ret (Some 0, None), world_const) \<and>
   Scope_Get env0 child1 Port world_const = (Ret (Some (VPointer Port (Some 0)), None), world_const) \<and>
   calls (snd (Scope_Invoke env0 child1 [Port] (Some (VFunc [TPointer Port] (Some 0))) world_const))
     = [CallFunc 0 [VPointer Port (Some 0)]] \<and>
   calls (snd (Scope_Invoke env0 child1 [Port] (Some (VFunc [Port] (Some 0))) world_const))
     = [CallFunc 0 [VBasic ''Port'' (LInt 8080)]]"
proof -
  have inst: "instances (scopes (hp world_const) child1) Port = Some (VPointer Port (Some 0))"
    by (simp add: world_const_def SetScoped_def)
  have c: "calls (snd (Scope_Invoke env0 child1 [Port] (Some (VFunc [TPointer Port] (Some 0)))
        world_const)) = [CallFunc 0 [VPointer Port (Some 0)]]"
    "calls (snd (Scope_Invoke env0 child1 [Port] (Some (VFunc [Port] (Some 0))) world_const))
       = [CallFunc 0 [VBasic ''Port'' (LInt 8080)]]"
    by (simp_all add: eval_defs world_const_def)
  from constant_is_identity_stable [of child1 Port "Some 0" world_const world_const env0] inst c
  show ?thesis by simp
qed

text \<open>
  C3, as the claim states it, fails when an \<^verbatim>\<open>Invoke\<close> comes in between. After
  \<^verbatim>\<open>SetScoped(s, &port)\<close> the pointer is returned; \<^verbatim>\<open>s.Invoke(func(p Port) {})\<close> receives the
  port and ends with \<^verbatim>\<open>FreeOnce\<close>, which deletes the entry since \<^verbatim>\<open>Port\<close> has no provider
  link; the next \<^verbatim>\<open>GetScoped\<close> and \<^verbatim>\<open>s.Get\<close> fail with \<^verbatim>\<open>ErrNoProvider\<close>.
\<close>

theorem constant_dropped_by_Invoke_counterexample:
  "world_const = SetScoped child1 Port (Some 0)
       (on_heap (\<lambda>h. h\<lparr>mem := [VBasic ''Port'' (LInt 8080)]\<rparr>) world0) \<and>
   fst (GetScoped env0 child1 Port world_const) = Ret (Some 0, None) \<and>
   fst (Scope_Invoke env0 child1 [Port] (Some (VFunc [Port] (Some 0))) world_const)
     = Ret (Some [], None) \<and>
   fst (GetScoped env0 child1 Port
          (snd (Scope_Invoke env0 child1 [Port] (Some (VFunc [Port] (Some 0))) world_const)))
     = Ret (None, Some ErrNoProvider) \<and>
   fst (Scope_Get env0 child1 Port
          (snd (Scope_Invoke env0 child1 [Port] (Some (VFunc [Port] (Some 0))) world_const)))
     = Ret (None, Some ErrNoProvider)"
  by (simp add: eval_defs world_const_def)


section \<open>Once lifetime: one Create and one Free\<close>

text \<open>
  C4, as the code has it. The invoking scope itself provides the type, with the lifetime
  \<^verbatim>\<open>Once\<close>, a \<^verbatim>\<open>Create\<close> that succeeds with a valid pointer and a \<^verbatim>\<open>Free\<close>; it caches nothing
  before the call; the type is not a pointer type; application code leaves the scopes
  alone. Then \<^verbatim>\<open>Invoke\<close> of a func that takes the type calls \<^verbatim>\<open>Create\<close> once, the func with
  the created value, and \<^verbatim>\<open>Free\<close> once on the created pointer, in this order and nothing
  else, and leaves nothing cached. \<^verbatim>\<open>Hydrate\<close> of a variable of the type calls \<^verbatim>\<open>Create\<close> once
  and no \<^verbatim>\<open>Free\<close>: the instance stays cached on the scope until the caller runs
  \<^verbatim>\<open>FreeOnce\<close>, as the comment of \<^verbatim>\<open>Hydrate\<close> asks, which calls \<^verbatim>\<open>Free\<close> once on it.
\<close>

theorem once_instance_per_call:
  assumes q: "leaves_scopes_alone E"
    and prov: "providers (scopes (hp w) s) k = Some l" "key l = k"
      "Lifetime (provider l) = LifetimeOnce" "Create (provider l) = Some c" "Free (provider l) = Some f"
    and fresh: "instances (scopes (hp w) s) = Map.empty"
    and notptr: "\<forall>t. k \<noteq> TPointer t"
    and created: "create_fn E c s (hp w) = ((Some a, None), h1)" "a < length (mem h1)"
      "typeOf (mem h1 ! a) = k"
    and range: "k \<in> set ks"
  shows "(\<exists>res w'. Scope_Invoke E s ks (Some (VFunc [k] (Some fn))) w = (Ret (Some res, None), w') \<and>
            calls w' = calls w @ [CallCreate c s, CallFunc fn [mem h1 ! a], CallFree f s (Some a)] \<and>
            instances (scopes (hp w') s) = Map.empty) \<and>
         (p < length (mem (hp w)) \<and> typeOf (mem (hp w) ! p) = k \<longrightarrow>
            (\<exists>w1 e w2. Scope_Hydrate E s (Some (VPointer k (Some p))) w = (Ret None, w1) \<and>
               calls w1 = calls w @ [CallCreate c s] \<and>
               instances (scopes (hp w1) s) k = Some (VPointer k (Some a)) \<and>
               Scope_FreeOnce E s ks w1 = (Ret e, w2) \<and>
               calls w2 = calls w1 @ [CallFree f s (Some a)] \<and>
               instances (scopes (hp w2) s) k = None))"
proof -
  from quiet_create [OF q created(1)] have h1: "scopes h1 = scopes (hp w)" .
  define w1 where "w1 = on_heap (put_instance s k (VPointer k (Some a))) ((log (CallCreate c s) w)\<lparr>hp := h1\<rparr>)"
  have nocache: "instances (scopes (hp w) s) k = None" using fresh by simp
  have get: "Scope_Get E s k w = (Ret (Some (VPointer k (Some a)), None), w1)"
    unfolding w1_def by (rule Scope_Get_local_create [OF prov(1,2,4) nocache created(1)])
  have m1: "mem (hp w1) = mem h1" and c1: "calls w1 = calls w @ [CallCreate c s]"
    by (simp_all add: w1_def)
  have sc1: "scopes (hp w1) = scopes (put_instance s k (VPointer k (Some a)) (hp w))"
    by (simp add: w1_def put_instance_def h1)
  have i1: "instances (scopes (hp w1) s) = [k \<mapsto> VPointer k (Some a)]"
    using fresh by (simp add: sc1)
  have g1: "getLink (hp w1) s k = Some l"
    using getLink_scopes [OF sc1] getLink_local [OF prov(1)] by simp
  have hv: "hydrateValue E s (False, False) v w = (Ret (mem h1 ! a, None), w1)" if "typeOf v = k" for v
    using that created(2,3) by (simp add: hydrateValue.simps get elemOf_def m1 isRO_def assignTo_def)
  show ?thesis
  proof (intro conjI impI)
    let ?x = "mem h1 ! a"
    have "hydrateType E s k w = (Ret (Some ?x, None), w1)"
      using notptr hv [OF typeOf_zero(1)] by (cases k) (simp_all add: hydrateType_def)
    then have args: "Invoke_args E s [k] w = (Ret ([?x], None), w1)" by simp
    obtain res h3 where b: "func_body E fn [?x] (hp (log (CallFunc fn [?x]) w1)) = (res, h3)"
      by (metis surj_pair)
    define w3 where "w3 = (log (CallFunc fn [?x]) w1)\<lparr>hp := h3\<rparr>"
    from quiet_func [OF q b] have sc3: "scopes (hp w3) = scopes (hp w1)" by (simp add: w3_def)
    have c3: "calls w3 = calls w @ [CallCreate c s, CallFunc fn [?x]]" by (simp add: w3_def c1)
    have "\<not> isPointer ?x" using created(3) notptr by (cases ?x) auto
    then have after: "Invoke_after E s [?x] w3 = (Ret None, w3)" by (cases ?x) simp_all
    have i3: "instances (scopes (hp w3) s) = [k \<mapsto> VPointer k (Some a)]" using i1 sc3 by simp
    have g3: "getLink (hp w3) s k = Some l" using getLink_scopes [OF sc3] g1 by simp
    from FreeOnce_range_single [OF q g3 prov(2,3,5) i3 range, of "[]"]
    obtain errs' w5 where fo: "FreeOnce_range E s ks [] w3 = (Ret errs', w5)"
      "calls w5 = calls w3 @ [CallFree f s (Some a)]" "instances (scopes (hp w5) s) = Map.empty"
      by blast
    have "Scope_Invoke E s ks (Some (VFunc [k] (Some fn))) w = (Ret (Some res, None), w5)"
      using args created(3) b after fo(1)
      by (simp add: Scope_Invoke_def Scope_FreeOnce_def w3_def)
    with fo(2,3) c3
    show "\<exists>res w'. Scope_Invoke E s ks (Some (VFunc [k] (Some fn))) w = (Ret (Some res, None), w') \<and>
            calls w' = calls w @ [CallCreate c s, CallFunc fn [mem h1 ! a], CallFree f s (Some a)] \<and>
            instances (scopes (hp w') s) = Map.empty"
      by simp
  next
    assume p: "p < length (mem (hp w)) \<and> typeOf (mem (hp w) ! p) = k"
    define w2 where "w2 = on_heap (\<lambda>h. h\<lparr>mem := (mem h)[p := mem h1 ! a]\<rparr>) w1"
    have hyd: "Scope_Hydrate E s (Some (VPointer k (Some p))) w = (Ret None, w2)"
      using p hv [of "mem (hp w) ! p"] by (simp add: Scope_Hydrate_def w2_def)
    have sc2: "scopes (hp w2) = scopes (hp w1)" and c2: "calls w2 = calls w1" by (simp_all add: w2_def)
    have i2: "instances (scopes (hp w2) s) = [k \<mapsto> VPointer k (Some a)]" using i1 sc2 by simp
    have g2: "getLink (hp w2) s k = Some l" using getLink_scopes [OF sc2] g1 by simp
    from FreeOnce_range_single [OF q g2 prov(2,3,5) i2 range, of "[]"]
    obtain errs' w5 where fo: "FreeOnce_range E s ks [] w2 = (Ret errs', w5)"
      "calls w5 = calls w2 @ [CallFree f s (Some a)]" "instances (scopes (hp w5) s) = Map.empty"
      by blast
    define e where "e = (if length errs' > 0 then Some (MultiError errs') else None)"
    have "Scope_FreeOnce E s ks w2 = (Ret e, w5)" using fo(1) by (simp add: Scope_FreeOnce_def e_def)
    with hyd c1 c2 i2 fo(2,3)
    show "\<exists>w1 e w2. Scope_Hydrate E s (Some (VPointer k (Some p))) w = (Ret None, w1) \<and>
               calls w1 = calls w @ [CallCreate c s] \<and>
               instances (scopes (hp w1) s) k = Some (VPointer k (Some a)) \<and>
               Scope_FreeOnce E s ks w1 = (Ret e, w2) \<and>
               calls w2 = calls w1 @ [CallFree f s (Some a)] \<and>
               instances (scopes (hp w2) s) k = None"
      by simp
  qed
qed

theorem once_instance_per_call_witness:
  "leaves_scopes_alone env0 \<and>
   instances (scopes (hp world_once_ok) child1) = Map.empty \<and>
   create_fn env0 0 child1 (hp world_once_ok)
     = ((Some 1, None), (hp world_once_ok)\<lparr>mem := [VBasic ''Port'' (LInt 0), VBasic ''Port'' (LInt 8080)]\<rparr>) \<and>
   fst (Scope_Invoke env0 child1 [Port] (Some (VFunc [Port] (Some 0))) world_once_ok)
     = Ret (Some [], None) \<and>
   calls (snd (Scope_Invoke env0 child1 [Port] (Some (VFunc [Port] (Some 0))) world_once_ok))
     = [CallCreate 0 child1, CallFunc 0 [VBasic ''Port'' (LInt 8080)], CallFree 0 child1 (Some 1)] \<and>
   instances (scopes (hp (snd (Scope_Invoke env0 child1 [Port] (Some (VFunc [Port] (Some 0)))
       world_once_ok))) child1) = Map.empty \<and>
   fst (Scope_Hydrate env0 child1 (Some (VPointer Port (Some 0))) world_once_ok) = Ret None \<and>
   calls (snd (Scope_Hydrate env0 child1 (Some (VPointer Port (Some 0))) world_once_ok))
     = [CallCreate 0 child1] \<and>
   calls (snd (Scope_FreeOnce env0 child1 [Port]
       (snd (Scope_Hydrate env0 child1 (Some (VPointer Port (Some 0))) world_once_ok))))
     = [CallCreate 0 child1, CallFree 0 child1 (Some 1)]"
proof -
  let ?l = "\<lparr>provider = \<lparr>Lifetime = LifetimeOnce, Create = Some 0, AfterPointerUse = None,
                           Free = Some 0\<rparr>, key = Port\<rparr>"
  let ?h1 = "(hp world_once_ok)\<lparr>mem := [VBasic ''Port'' (LInt 0), VBasic ''Port'' (LInt 8080)]\<rparr>"
  have prov: "providers (scopes (hp world_once_ok) child1) Port = Some ?l"
    and fresh: "instances (scopes (hp world_once_ok) child1) = Map.empty"
    and created: "create_fn env0 0 child1 (hp world_once_ok) = ((Some 1, None), ?h1)"
    and cell: "0 < length (mem (hp world_once_ok)) \<and> typeOf (mem (hp world_once_ok) ! 0) = Port"
    and nocalls: "calls world_once_ok = []"
    by (simp_all add: world_once_ok_def world0_def ProvideScoped_def empty_scope_def child1_def
        Port_def)
  have res: "fst (Scope_Invoke env0 child1 [Port] (Some (VFunc [Port] (Some 0))) world_once_ok)
      = Ret (Some [], None)"
    by (simp add: eval_defs world_once_ok_def)
  from once_instance_per_call [OF env0_quiet prov _ _ _ _ fresh _ created, of 0 "[Port]" 0 0]
  have "(\<exists>res w'. Scope_Invoke env0 child1 [Port] (Some (VFunc [Port] (Some 0))) world_once_ok
              = (Ret (Some res, None), w') \<and>
            calls w' = calls world_once_ok
              @ [CallCreate 0 child1, CallFunc 0 [mem ?h1 ! 1], CallFree 0 child1 (Some 1)] \<and>
            instances (scopes (hp w') child1) = Map.empty) \<and>
        (\<exists>w1 e w2. Scope_Hydrate env0 child1 (Some (VPointer Port (Some 0))) world_once_ok
              = (Ret None, w1) \<and>
            calls w1 = calls world_once_ok @ [CallCreate 0 child1] \<and>
            instances (scopes (hp w1) child1) Port = Some (VPointer Port (Some 1)) \<and>
            Scope_FreeOnce env0 child1 [Port] w1 = (Ret e, w2) \<and>
            calls w2 = calls w1 @ [CallFree 0 child1 (Some 1)] \<and>
            instances (scopes (hp w2) child1) Port = None)"
    using cell by (simp add: Port_def)
  then show ?thesis using fresh created res nocalls env0_quiet by auto
qed

text \<open>
  C4, as the claim states it, fails for \<^verbatim>\<open>Hydrate\<close>, which never calls \<^verbatim>\<open>FreeOnce\<close>. After
  \<^verbatim>\<open>s.Hydrate(&port)\<close> the only call made is \<^verbatim>\<open>Create\<close>; the instance is still cached, a
  following \<^verbatim>\<open>s.Get\<close> returns it, and a second \<^verbatim>\<open>s.Hydrate(&port)\<close> calls neither \<^verbatim>\<open>Create\<close>
  nor \<^verbatim>\<open>Free\<close>.
\<close>

theorem Hydrate_never_frees_counterexample:
  "fst (Scope_Hydrate env0 child1 (Some (VPointer Port (Some 0))) world_once_ok) = Ret None \<and>
   calls (snd (Scope_Hydrate env0 child1 (Some (VPointer Port (Some 0))) world_once_ok))
     = [CallCreate 0 child1] \<and>
   fst (Scope_Get env0 child1 Port
          (snd (Scope_Hydrate env0 child1 (Some (VPointer Port (Some 0))) world_once_ok)))
     = Ret (Some (VPointer Port (Some 1)), None) \<and>
   calls (snd (Scope_Hydrate env0 child1 (Some (VPointer Port (Some 0)))
          (snd (Scope_Hydrate env0 child1 (Some (VPointer Port (Some 0))) world_once_ok))))
     = [CallCreate 0 child1]"
  by (simp add: eval_defs world_once_ok_def)

section \<open>Invoke and the release of Once instances\<close>

text \<open>
  C5. The scope provides \<^verbatim>\<open>Port\<close> with the lifetime \<^verbatim>\<open>Once\<close> and a \<^verbatim>\<open>Free\<close> that fails, and
  \<^verbatim>\<open>Conn\<close> with a \<^verbatim>\<open>Create\<close> that fails. \<^verbatim>\<open>s.Invoke(func(p Port, c Conn) {})\<close> creates the
  port, fails on \<^verbatim>\<open>Conn\<close> and returns before \<^verbatim>\<open>FreeOnce\<close>: no \<^verbatim>\<open>Free\<close> is called and the port
  stays cached. \<^verbatim>\<open>s.Invoke(func(p Port) {})\<close> reaches \<^verbatim>\<open>FreeOnce\<close>, whose \<^verbatim>\<open>Free\<close> fails, and
  returns no error.
\<close>

theorem Invoke_leaks_once_instance:
  "fst (Scope_Invoke env0 child1 [Port, Conn] (Some (VFunc [Port, Conn] (Some 0))) world_once)
     = Ret (None, Some (UserError ''create failed'')) \<and>
   calls (snd (Scope_Invoke env0 child1 [Port, Conn] (Some (VFunc [Port, Conn] (Some 0))) world_once))
     = [CallCreate 0 child1, CallCreate 1 child1] \<and>
   instances (scopes (hp (snd (Scope_Invoke env0 child1 [Port, Conn]
       (Some (VFunc [Port, Conn] (Some 0))) world_once))) child1) Port = Some (VPointer Port (Some 0)) \<and>
   fst (Scope_Invoke env0 child1 [Port, Conn] (Some (VFunc [Port] (Some 0))) world_once)
     = Ret (Some [], None) \<and>
   calls (snd (Scope_Invoke env0 child1 [Port, Conn] (Some (VFunc [Port] (Some 0))) world_once))
     = [CallCreate 0 child1, CallFunc 0 [VBasic ''Port'' (LInt 8080)], CallFree 1 child1 (Some 0)] \<and>
   fst (free_fn env0 1 child1 (Some 0) (hp world_once)) = Some (UserError ''close failed'')"
  by (simp add: eval_defs world_once_def)

section \<open>Hydrate and a map behind an unexported field\<close>

text \<open>
  C6 says that a slot whose type resolves with \<^verbatim>\<open>ErrNoProvider\<close> is left as it is and that
  \<^verbatim>\<open>Hydrate\<close> goes on and succeeds. Take \<^verbatim>\<open>cfg := Config{tags: map[string]int{"a": 1}}\<close> with
  nothing provided: the struct, the map and \<^verbatim>\<open>int\<close> all resolve with \<^verbatim>\<open>ErrNoProvider\<close>. The
  traversal reaches the map through the unexported field, hydrates a new \<^verbatim>\<open>int\<close> for the
  key and calls \<^verbatim>\<open>SetMapIndex\<close> on the map (line 436), which panics on a value obtained
  through an unexported field: \<^verbatim>\<open>Hydrate(&cfg)\<close> does not return. With the field exported the
  same call returns nil. An unexported field of a provided type is passed over without a
  panic and keeps its value, because the \<^verbatim>\<open>Set\<close> of line 390 is guarded by \<^verbatim>\<open>CanSet\<close>; the
  branch for maps has no such guard.
\<close>

theorem Hydrate_unexported_map_panics:
  "Scope_Get env0 child1 Config world_config = (Ret (None, Some ErrNoProvider), world_config) \<and>
   Scope_Get env0 child1 (TMap (TBasic ''string'' KString) (TBasic ''int'' KInt)) world_config
     = (Ret (None, Some ErrNoProvider), world_config) \<and>
   Scope_Get env0 child1 (TBasic ''int'' KInt) world_config
     = (Ret (None, Some ErrNoProvider), world_config) \<and>
   fst (Scope_Hydrate env0 child1 (Some (VPointer Config (Some 0))) world_config)
     = Panic ''reflect.SetMapIndex: unexported field'' \<and>
   fst (Scope_Hydrate env0 child1 (Some (VPointer Settings (Some 0))) world_settings) = Ret None \<and>
   fst (Scope_Hydrate env0 child1 (Some (VPointer Listener (Some 0))) world_listener) = Ret None \<and>
   mem (hp (snd (Scope_Hydrate env0 child1 (Some (VPointer Listener (Some 0))) world_listener))) ! 0
     = VStruct ''Listener'' [(Unexported, VBasic ''Port'' (LInt 0))]"
  by (simp add: eval_defs Config_def world_config_def Settings_def world_settings_def
      Listener_def world_listener_def)

section \<open>A provider without Create\<close>

text \<open>
  C8. \<^verbatim>\<open>ProvideScoped(s, Provider[Port]{})\<close> on a child of the global scope, then the two
  resolutions: \<^verbatim>\<open>s.Get\<close> reports \<^verbatim>\<open>ErrMissingCreate\<close>, as \<^verbatim>\<open>providerLink.get\<close> tests
  \<^verbatim>\<open>Create\<close> for nil, but \<^verbatim>\<open>GetScoped[Port](s)\<close> calls the nil func and panics.
\<close>

theorem GetScoped_nil_Create_panics:
  "providers (scopes (hp world_nil_create) child1) Port
     = Some \<lparr>provider = \<lparr>Lifetime = LifetimeForever, Create = None, AfterPointerUse = None, Free = None\<rparr>,
             key = Port\<rparr> \<and>
   fst (Scope_Get env0 child1 Port world_nil_create) = Ret (None, Some ErrMissingCreate) \<and>
   fst (GetScoped env0 child1 Port world_nil_create) = Panic ''nil pointer dereference''"
  by (simp add: world_nil_create_def world0_def child1_def ProvideScoped_def empty_scope_def
      GetScoped_body_def Get_body_def providerLink_get_def)

section \<open>Dynamic results are not cached\<close>



section \<open>FreeOnce drops what has no provider\<close>




end
